theory Spec2Isabelle
  imports Complex_Main
begin

section \<open>The NHANES regression walkthrough (basic_regression/python/nhanes_ols.py)\<close>

text \<open>
  The module is a script: imports, one CSV read, data preparation with pandas, eight
  model fits with statsmodels, a few descriptive statistics and plotting calls. It has
  no \<^verbatim>\<open>def\<close>, \<^verbatim>\<open>if\<close>, \<^verbatim>\<open>for\<close>, \<^verbatim>\<open>while\<close>,
  \<^verbatim>\<open>try\<close> or \<^verbatim>\<open>with\<close>, so the embedding is a list of simple statements, one
  per source statement and in source order, and a function that executes one statement
  on the interpreter state.

  What pandas does to the data frame (column selection, \<^verbatim>\<open>dropna\<close>, \<^verbatim>\<open>replace\<close>,
  \<^verbatim>\<open>mean\<close>, \<^verbatim>\<open>std\<close>, column arithmetic, column assignment and deletion) is written
  out. A numeric cell is a double, modelled as the real number it denotes, and every
  arithmetic operation on cells rounds its exact result to the nearest double; NaN,
  the missing-value marker of pandas, is part of the model, overflow, underflow and
  the infinities are not. The numerical routines of statsmodels, seaborn and
  matplotlib are opaque: a call to one of them is recorded in a trace with the data
  it receives, and it may raise.
\<close>

subsection \<open>Cells, columns, data frames\<close>

datatype cell = Num real | Str string | NaN

type_synonym column = "cell list"

text \<open>A data frame is the ordered list of its named columns.\<close>

type_synonym frame = "(string \<times> column) list"

datatype error =
    NameError string
  | KeyError "string list"
  | AttributeError string
  | TypeError string
  | LibError string

definition columns :: "frame \<Rightarrow> string list" where
  "columns df = map fst df"

definition colof :: "frame \<Rightarrow> string \<Rightarrow> column" where
  "colof df v = (case map_of df v of Some c \<Rightarrow> c | None \<Rightarrow> [])"

definition nrows :: "frame \<Rightarrow> nat" where
  "nrows df = (case df of [] \<Rightarrow> 0 | (n, c) # _ \<Rightarrow> length c)"

text \<open>\<^verbatim>\<open>da[vars]\<close>: the listed columns in the listed order; a label that is not a
  column raises KeyError (pandas names the missing labels).\<close>

definition select :: "frame \<Rightarrow> string list \<Rightarrow> error + frame" where
  "select df vs =
     (let missing = filter (\<lambda>v. v \<notin> set (columns df)) vs
      in if missing \<noteq> [] then Inl (KeyError missing)
         else Inr (map (\<lambda>v. (v, colof df v)) vs))"

text \<open>\<^verbatim>\<open>dropna()\<close>: the rows in which no cell is missing, in their order.\<close>

definition row_ok :: "frame \<Rightarrow> nat \<Rightarrow> bool" where
  "row_ok df i = list_all (\<lambda>(n, c). c ! i \<noteq> NaN) df"

definition dropna :: "frame \<Rightarrow> frame" where
  "dropna df =
     (let keep = filter (row_ok df) [0..<nrows df]
      in map (\<lambda>(n, c). (n, map ((!) c) keep)) df)"

text \<open>\<^verbatim>\<open>da[name] = col\<close>: an existing column is replaced in place, a new one is
  appended.\<close>

definition setcol :: "frame \<Rightarrow> string \<Rightarrow> column \<Rightarrow> frame" where
  "setcol df name col =
     (if name \<in> set (columns df)
      then map (\<lambda>(n, c). if n = name then (n, col) else (n, c)) df
      else df @ [(name, col)])"

text \<open>\<^verbatim>\<open>values[k] = v\<close> on a dictionary: the same for a list of keys and values.\<close>

definition setcol_dict :: "(string \<times> cell) list \<Rightarrow> string \<Rightarrow> cell \<Rightarrow> (string \<times> cell) list" where
  "setcol_dict d k v =
     (if k \<in> set (map fst d)
      then map (\<lambda>(k', v'). if k' = k then (k', v) else (k', v')) d
      else d @ [(k, v)])"

text \<open>\<^verbatim>\<open>del da[name]\<close>: KeyError when there is no such column.\<close>

definition delcol :: "frame \<Rightarrow> string \<Rightarrow> error + frame" where
  "delcol df name =
     (if name \<in> set (columns df) then Inr (filter (\<lambda>(n, c). n \<noteq> name) df)
      else Inl (KeyError [name]))"

subsection \<open>The numbers of a column\<close>

fun is_Str :: "cell \<Rightarrow> bool" where
  "is_Str (Str s) = True"
| "is_Str c = False"

text \<open>The numbers of a column; \<^verbatim>\<open>mean\<close> and \<^verbatim>\<open>std\<close> skip missing cells.\<close>

fun nums :: "column \<Rightarrow> real list" where
  "nums [] = []"
| "nums (Num r # cs) = r # nums cs"
| "nums (c # cs) = nums cs"

subsection \<open>Double precision\<close>

text \<open>Rounding to the nearest integer, a tie to the even one.\<close>

definition rne :: "real \<Rightarrow> int" where
  "rne q =
     (let f = \<lfloor>q\<rfloor>; d = q - of_int f
      in if d < 1 / 2 then f
         else if 1 / 2 < d then f + 1
         else if even f then f else f + 1)"

text \<open>Rounding to the nearest double: the nearest multiple of \<open>2^(e - 52)\<close>, where
  \<open>2^e \<le> |x| < 2^(e + 1)\<close>, so that 53 significant bits are kept. The exponent \<open>e\<close> is
  any integer.\<close>

definition rnd :: "real \<Rightarrow> real" where
  "rnd x =
     (if x = 0 then 0
      else let e = \<lfloor>log 2 \<bar>x\<bar>\<rfloor>
           in of_int (rne (x * 2 powr (52 - of_int e))) * 2 powr (of_int e - 52))"

text \<open>The operations on columns take the rounding \<open>r\<close> of their arithmetic as a
  parameter: it is \<open>rnd\<close> for the doubles of the script and the identity for exact
  arithmetic.\<close>

type_synonym rounding = "real \<Rightarrow> real"

text \<open>A sum, accumulated in the order of the column.\<close>

fun fsum :: "rounding \<Rightarrow> real \<Rightarrow> real list \<Rightarrow> real" where
  "fsum r a [] = a"
| "fsum r a (x # xs) = fsum r (r (a + x)) xs"

text \<open>\<^verbatim>\<open>Series.mean()\<close>: the sum divided by the count; NaN when there is no number
  to average.\<close>

definition mean_r :: "rounding \<Rightarrow> column \<Rightarrow> cell" where
  "mean_r r c =
     (if nums c = [] then NaN
      else Num (r (fsum r 0 (nums c) / real (length (nums c)))))"

text \<open>\<^verbatim>\<open>Series.std()\<close>: the sample standard deviation, the square root of the sum
  of the squared deviations from the mean divided by n - 1; NaN for fewer than two
  numbers.\<close>

definition std_r :: "rounding \<Rightarrow> column \<Rightarrow> cell" where
  "std_r r c =
     (let xs = nums c; n = length xs
      in if n \<le> 1 then NaN
         else let avg = r (fsum r 0 xs / real n)
              in Num (r (sqrt (r (fsum r 0 (map (\<lambda>x. r ((r (avg - x))\<^sup>2)) xs)
                                  / real (n - 1))))))"

text \<open>Arithmetic of a cell and a scalar; NaN propagates. A zero divisor gives NaN:
  that is what 0/0 is in floating point, and the one division of the script (line 612)
  has a zero divisor only when every numerator is zero (lemma \<open>std_zero_centered\<close>).\<close>

fun fsub :: "rounding \<Rightarrow> cell \<Rightarrow> cell \<Rightarrow> cell" where
  "fsub r (Num a) (Num b) = Num (r (a - b))"
| "fsub r a b = NaN"

fun fdiv :: "rounding \<Rightarrow> cell \<Rightarrow> cell \<Rightarrow> cell" where
  "fdiv r (Num a) (Num b) = (if b = 0 then NaN else Num (r (a / b)))"
| "fdiv r a b = NaN"

text \<open>\<^verbatim>\<open>c - c.mean()\<close> and \<^verbatim>\<open>(c - c.mean()) / c.std()\<close>.\<close>

definition center_r :: "rounding \<Rightarrow> column \<Rightarrow> column" where
  "center_r r c = map (\<lambda>x. fsub r x (mean_r r c)) c"

definition standardize_r :: "rounding \<Rightarrow> column \<Rightarrow> column" where
  "standardize_r r c = map (\<lambda>x. fdiv r (fsub r x (mean_r r c)) (std_r r c)) c"

text \<open>What the script computes, in doubles: \<^verbatim>\<open>mean()\<close>, \<^verbatim>\<open>std()\<close>, line 686 and
  line 612.\<close>

definition mean :: "column \<Rightarrow> cell" where
  "mean = mean_r rnd"

definition std :: "column \<Rightarrow> cell" where
  "std = std_r rnd"

definition center :: "column \<Rightarrow> column" where
  "center = center_r rnd"

definition standardize :: "column \<Rightarrow> column" where
  "standardize = standardize_r rnd"

text \<open>\<^verbatim>\<open>c.replace({k1: v1, ...})\<close>: a cell equal to a key becomes the key's value,
  every other cell stays.\<close>

definition replace :: "(cell \<times> cell) list \<Rightarrow> column \<Rightarrow> column" where
  "replace m c = map (\<lambda>x. case map_of m x of Some v \<Rightarrow> v | None \<Rightarrow> x) c"

subsection \<open>Model formulas\<close>

text \<open>A formula is the string the script passes to \<^verbatim>\<open>from_formula\<close>. Its outcome
  is the text left of the tilde; its terms are the summands right of it, where
  \<^verbatim>\<open>a*b\<close> stands for the two main effects and their interaction \<^verbatim>\<open>a:b\<close>.
  Operators inside brackets, as in \<^verbatim>\<open>I(RIDAGEYR_z**2)\<close>, belong to the term.\<close>

definition trim :: "string \<Rightarrow> string" where
  "trim s = rev (dropWhile (\<lambda>c. c = CHR '' '') (rev (dropWhile (\<lambda>c. c = CHR '' '') s)))"

definition outcome :: "string \<Rightarrow> string" where
  "outcome f = trim (takeWhile (\<lambda>c. c \<noteq> CHR ''~'') f)"

definition rhs :: "string \<Rightarrow> string" where
  "rhs f = drop 1 (dropWhile (\<lambda>c. c \<noteq> CHR ''~'') f)"

fun split_top :: "char \<Rightarrow> nat \<Rightarrow> string \<Rightarrow> string \<Rightarrow> string list" where
  "split_top sep depth acc [] = [rev acc]"
| "split_top sep depth acc (c # cs) =
     (if c = CHR ''('' then split_top sep (depth + 1) (c # acc) cs
      else if c = CHR '')'' then split_top sep (depth - 1) (c # acc) cs
      else if c = sep \<and> depth = 0 then rev acc # split_top sep 0 [] cs
      else split_top sep depth (c # acc) cs)"

definition expand :: "string \<Rightarrow> string list" where
  "expand t = (case map trim (split_top (CHR ''*'') 0 [] t) of
                 [a, b] \<Rightarrow> [a, b, a @ '':'' @ b]
               | _ \<Rightarrow> [trim t])"

definition terms_of :: "string \<Rightarrow> string list" where
  "terms_of f = concat (map expand (split_top (CHR ''+'') 0 [] (rhs f)))"

text \<open>One formula adds terms to another: it has all the other's terms and more.\<close>

definition adds_terms :: "string \<Rightarrow> string \<Rightarrow> bool" where
  "adds_terms f g = (set (terms_of f) \<subset> set (terms_of g))"

text \<open>The number of terms of a formula.\<close>

definition n_terms :: "string \<Rightarrow> nat" where
  "n_terms f = length (terms_of f)"

subsection \<open>Statements and the script\<close>

datatype estimator = OLS | GLM

datatype stmt =
    Import string
  | AssignUrl string
  | ReadCsv
  | AssignVars "string list"
  | SelectDropna
  | FromFormula estimator string
  | Fit
  | ReplaceCol string string "(cell \<times> cell) list"
  | Standardize string string
  | Center string string
  | DelCol string
  | ValuesInit "(string \<times> cell) list"
  | ValuesDel string
  | ValuesSet string cell
  | Call string "string list"

text \<open>
  \<^item> \<open>Import m\<close>: \<^verbatim>\<open>import m\<close> or \<^verbatim>\<open>from m import ...\<close>
  \<^item> \<open>AssignUrl u\<close>: \<^verbatim>\<open>url = u\<close>;  \<open>ReadCsv\<close>: \<^verbatim>\<open>da = pd.read_csv(url)\<close>
  \<^item> \<open>AssignVars vs\<close>: \<^verbatim>\<open>vars = vs\<close>;  \<open>SelectDropna\<close>: \<^verbatim>\<open>da = da[vars].dropna()\<close>
  \<^item> \<open>FromFormula e f\<close>: \<^verbatim>\<open>model = sm.e.from_formula(f, data=da)\<close>;
    \<open>Fit\<close>: \<^verbatim>\<open>result = model.fit()\<close>
  \<^item> \<open>ReplaceCol new old m\<close>: \<^verbatim>\<open>da[new] = da.old.replace(m)\<close>
  \<^item> \<open>Standardize new old\<close>: \<^verbatim>\<open>da[new] = (da.old - da.old.mean()) / da.old.std()\<close>
  \<^item> \<open>Center new old\<close>: \<^verbatim>\<open>da[new] = da.old - da.old.mean()\<close>
  \<^item> \<open>DelCol c\<close>: \<^verbatim>\<open>del da[c]\<close>
  \<^item> \<open>ValuesInit d\<close>: \<^verbatim>\<open>values = d\<close>; \<open>ValuesDel k\<close>: \<^verbatim>\<open>del values[k]\<close>;
    \<open>ValuesSet k v\<close>: \<^verbatim>\<open>values[k] = v\<close>
  \<^item> \<open>Call f args\<close>: any other call, with the callee and the arguments as written
    (without the quotes of string literals); its result is opaque, and the name it is
    assigned to, if any, is not kept.
\<close>

definition nhanes_url :: string where
  "nhanes_url = ''https://raw.githubusercontent.com/kshedden/statswpy/master/NHANES/merged/nhanes_2015_2016.csv''"

definition key_vars :: "string list" where
  "key_vars = [''BPXSY1'', ''RIDAGEYR'', ''RIAGENDR'', ''RIDRETH1'', ''DMDEDUC2'', ''BMXBMI'', ''SMQ020'']"

definition values0 :: "(string \<times> cell) list" where
  "values0 = [(''RIAGENDRx'', Str ''Female''), (''RIAGENDR'', Num 2), (''BMXBMI'', Num 25),
              (''DMDEDUC2'', Num 1), (''RIDRETH1'', Num 1), (''SMQ020'', Num 1)]"

text \<open>Lines 92 to 112: imports, the read, the selection of the key columns.\<close>

definition load_part :: "stmt list" where
  "load_part =
   [ Import ''matplotlib.pyplot'',
     Import ''seaborn'',
     Import ''pandas'',
     Import ''statsmodels.api'',
     Import ''numpy'',
     AssignUrl nhanes_url,
     ReadCsv,
     AssignVars key_vars,
     SelectDropna ]"

text \<open>Lines 178 to 709.\<close>

definition analysis_part :: "stmt list" where
  "analysis_part =
   [ FromFormula OLS ''BPXSY1 ~ RIDAGEYR'',
     Fit,
     Call ''result.summary'' [],
     Call ''da.BPXSY1.std'' [],
     Call ''da[[BPXSY1, RIDAGEYR]].corr'' [],
     Call ''print'' [''cc.BPXSY1.RIDAGEYR**2''],
     Call ''np.corrcoef'' [''da.BPXSY1'', ''result.fittedvalues''],
     Call ''print'' [''cc[0, 1]**2''],
     ReplaceCol ''RIAGENDRx'' ''RIAGENDR'' [(Num 1, Str ''Male''), (Num 2, Str ''Female'')],
     FromFormula OLS ''BPXSY1 ~ RIDAGEYR + RIAGENDRx'',
     Fit,
     Call ''result.summary'' [],
     Call ''da[[RIDAGEYR, RIAGENDR]].corr'' [],
     Call ''np.corrcoef'' [''da.BPXSY1'', ''result.fittedvalues''],
     Call ''print'' [''cc[0, 1]**2''],
     FromFormula OLS ''BPXSY1 ~ RIDAGEYR + BMXBMI + RIAGENDRx'',
     Fit,
     Call ''result.summary'' [],
     Call ''da[[RIDAGEYR, RIAGENDR, BMXBMI]].corr'' [],
     Import ''statsmodels.sandbox.predict_functional'',
     ValuesInit values0,
     Call ''predict_functional'' [''result'', ''RIDAGEYR'', ''values=values'', ''ci_method=simultaneous''],
     Call ''sns.lineplot'' [''fv'', ''pr'', ''lw=4''],
     Call ''ax.fill_between'' [''fv'', ''cb[:, 0]'', ''cb[:, 1]'', ''color=grey'', ''alpha=0.4''],
     Call ''ax.set_xlabel'' [''Age''],
     Call ''ax.set_ylabel'' [''SBP''],
     ValuesDel ''BMXBMI'',
     ValuesSet ''RIDAGEYR'' (Num 50),
     Call ''predict_functional'' [''result'', ''BMXBMI'', ''values=values'', ''ci_method=simultaneous''],
     Call ''sns.lineplot'' [''fv'', ''pr'', ''lw=4''],
     Call ''ax.fill_between'' [''fv'', ''cb[:, 0]'', ''cb[:, 1]'', ''color=grey'', ''alpha=0.4''],
     Call ''ax.set_xlabel'' [''BMI''],
     Call ''ax.set_ylabel'' [''SBP''],
     Call ''sns.scatterplot'' [''result.fittedvalues'', ''result.resid''],
     Call ''pp.set_xlabel'' [''Fitted values''],
     Call ''pp.set_ylabel'' [''Residuals''],
     Import ''statsmodels.graphics.regressionplots'',
     Call ''plt.axes'' [],
     Call ''plot_ccpr'' [''result'', ''RIDAGEYR'', ''ax''],
     Call ''ax.lines[0].set_alpha'' [''0.2''],
     Call ''ax.lines[1].set_color'' [''orange''],
     Call ''plt.axes'' [],
     Call ''plot_ccpr'' [''result'', ''BMXBMI'', ''ax''],
     Call ''ax.lines[0].set_alpha'' [''0.2''],
     Call ''ax.lines[1].set_color'' [''orange''],
     Import ''statsmodels.graphics.regressionplots'',
     FromFormula GLM ''BPXSY1 ~ RIDAGEYR + BMXBMI + RIAGENDRx'',
     Fit,
     Call ''result.plot_added_variable'' [''RIDAGEYR''],
     Call ''fig.axes[0].lines[0].set_alpha'' [''0.2''],
     Call ''add_lowess'' [''fig.axes[0]'', ''frac=0.5''],
     Import ''statsmodels.graphics.regressionplots'',
     FromFormula GLM ''BPXSY1 ~ RIDAGEYR + BMXBMI + RIAGENDRx'',
     Fit,
     Call ''result.plot_added_variable'' [''BMXBMI''],
     Call ''fig.axes[0].lines[0].set_alpha'' [''0.2''],
     Call ''add_lowess'' [''fig.axes[0]'', ''frac=0.5''],
     Standardize ''RIDAGEYR_z'' ''RIDAGEYR'',
     FromFormula OLS ''BPXSY1 ~ RIDAGEYR_z + I(RIDAGEYR_z**2) + RIAGENDRx'',
     Fit,
     Call ''result.summary'' [],
     FromFormula OLS ''BPXSY1 ~ bs(RIDAGEYR, 5) + BMXBMI + RIAGENDRx'',
     Fit,
     Call ''result.summary'' [],
     DelCol ''RIDAGEYR_z'',
     ValuesInit values0,
     Call ''predict_functional'' [''result'', ''RIDAGEYR'', ''values=values'', ''ci_method=simultaneous''],
     Call ''sns.lineplot'' [''fv'', ''pr'', ''lw=4''],
     Call ''ax.fill_between'' [''fv'', ''cb[:, 0]'', ''cb[:, 1]'', ''color=grey'', ''alpha=0.4''],
     Call ''ax.set_xlabel'' [''RIDAGEYR''],
     Call ''ax.set_ylabel'' [''SBP''],
     Center ''RIDAGEYR_cen'' ''RIDAGEYR'',
     FromFormula OLS ''BPXSY1 ~ RIDAGEYR_cen*RIAGENDRx + BMXBMI'',
     Fit,
     Call ''result.summary'' [],
     ValuesSet ''RIAGENDRx'' (Str ''Female''),
     ValuesSet ''RIDAGEYR'' NaN,
     Call ''predict_functional'' [''result'', ''RIDAGEYR_cen'', ''values=values'', ''ci_method=simultaneous''],
     Call ''sns.lineplot'' [''fv1'', ''pr1'', ''lw=4'', ''label=Female''],
     ValuesSet ''RIAGENDRx'' (Str ''Male''),
     Call ''predict_functional'' [''result'', ''RIDAGEYR_cen'', ''values=values'', ''ci_method=simultaneous''],
     Call ''sns.lineplot'' [''fv2'', ''pr2'', ''lw=4'', ''label=Male''],
     Call ''ax.set_xlabel'' [''RIDAGEYR''],
     Call ''ax.set_ylabel'' [''SBP''] ]"

definition program :: "stmt list" where
  "program = load_part @ analysis_part"

fun formula_of :: "stmt \<Rightarrow> string list" where
  "formula_of (FromFormula e f) = [f]"
| "formula_of s = []"

text \<open>The formulas of the models the script fits, in order.\<close>

definition fit_formulas :: "stmt list \<Rightarrow> string list" where
  "fit_formulas ss = concat (map formula_of ss)"

subsection \<open>State, library and the execution of a statement\<close>

text \<open>What the script asks of the outside: a read of a URL, a model built from a
  formula and a data frame, or any other library call.\<close>

datatype event =
    EvRead string
  | EvModel estimator string frame
  | EvCall string "string list"

text \<open>The variables of the script that hold data; \<open>None\<close> is an unbound name
  (for \<^verbatim>\<open>vars\<close> it is the builtin of that name, which is no list of labels). The
  opaque results (\<^verbatim>\<open>cc\<close>, \<^verbatim>\<open>pr\<close>, \<^verbatim>\<open>ax\<close>, ...) are not kept; of \<^verbatim>\<open>model\<close>
  and \<^verbatim>\<open>result\<close> the state keeps which model they are.\<close>

record state =
  url :: "string option"
  da :: "frame option"
  vars :: "string list option"
  model :: "(estimator \<times> string) option"
  result :: "(estimator \<times> string) option"
  values_d :: "(string \<times> cell) list option"
  trace :: "event list"

definition s0 :: state where
  "s0 = \<lparr>url = None, da = None, vars = None, model = None, result = None,
         values_d = None, trace = []\<rparr>"

text \<open>The library decides, from the state and the statement, whether an opaque call
  raises; the world answers a read of a URL with a data frame or an exception.\<close>

type_synonym library = "state \<Rightarrow> stmt \<Rightarrow> error option"

type_synonym world = "string \<Rightarrow> error + frame"

definition emit :: "event \<Rightarrow> state \<Rightarrow> state" where
  "emit ev st = st\<lparr>trace := trace st @ [ev]\<rparr>"

text \<open>An opaque call: recorded, then it raises or the script goes on.\<close>

definition opaque :: "library \<Rightarrow> stmt \<Rightarrow> event \<Rightarrow> state \<Rightarrow> (state \<Rightarrow> state) \<Rightarrow> state \<times> error option" where
  "opaque L s ev st k =
     (case L st s of Some e \<Rightarrow> (emit ev st, Some e) | None \<Rightarrow> (k (emit ev st), None))"

text \<open>A derived column \<^verbatim>\<open>da[new] = g(da.old)\<close>: \<^verbatim>\<open>da.old\<close> raises AttributeError
  when there is no such column; \<open>numeric\<close> says that \<open>g\<close> does arithmetic, which raises
  TypeError on a column of strings.\<close>

definition derive :: "string \<Rightarrow> bool \<Rightarrow> string \<Rightarrow> string \<Rightarrow> (column \<Rightarrow> column) \<Rightarrow> state \<Rightarrow> state \<times> error option" where
  "derive what numeric new old g st =
     (case da st of
        None \<Rightarrow> (st, Some (NameError ''da''))
      | Some d \<Rightarrow>
          if old \<notin> set (columns d) then (st, Some (AttributeError old))
          else if numeric \<and> list_ex is_Str (colof d old)
          then (emit (EvCall what [old]) st, Some (TypeError old))
          else ((emit (EvCall what [old]) st)\<lparr>da := Some (setcol d new (g (colof d old)))\<rparr>, None))"

fun exec :: "library \<Rightarrow> world \<Rightarrow> stmt \<Rightarrow> state \<Rightarrow> state \<times> error option" where
  "exec L E (Import m) st = opaque L (Import m) (EvCall ''import'' [m]) st id"
| "exec L E (AssignUrl u) st = (st\<lparr>url := Some u\<rparr>, None)"
| "exec L E ReadCsv st =
     (case url st of
        None \<Rightarrow> (st, Some (NameError ''url''))
      | Some u \<Rightarrow>
          (case E u of
             Inl e \<Rightarrow> (emit (EvRead u) st, Some e)
           | Inr f \<Rightarrow> ((emit (EvRead u) st)\<lparr>da := Some f\<rparr>, None)))"
| "exec L E (AssignVars vs) st = (st\<lparr>vars := Some vs\<rparr>, None)"
| "exec L E SelectDropna st =
     (case da st of
        None \<Rightarrow> (st, Some (NameError ''da''))
      | Some d \<Rightarrow>
          (case vars st of
             None \<Rightarrow> (emit (EvCall ''da[vars]'' []) st, Some (LibError ''da[vars]''))
           | Some vs \<Rightarrow>
               (case select d vs of
                  Inl e \<Rightarrow> (emit (EvCall ''da[vars]'' vs) st, Some e)
                | Inr d' \<Rightarrow>
                    ((emit (EvCall ''da[vars].dropna'' vs) st)\<lparr>da := Some (dropna d')\<rparr>, None))))"
| "exec L E (FromFormula e f) st =
     (case da st of
        None \<Rightarrow> (st, Some (NameError ''da''))
      | Some d \<Rightarrow> opaque L (FromFormula e f) (EvModel e f d) st (\<lambda>s. s\<lparr>model := Some (e, f)\<rparr>))"
| "exec L E Fit st =
     (case model st of
        None \<Rightarrow> (st, Some (NameError ''model''))
      | Some m \<Rightarrow> opaque L Fit (EvCall ''model.fit'' []) st (\<lambda>s. s\<lparr>result := Some m\<rparr>))"
| "exec L E (ReplaceCol new old m) st = derive ''replace'' False new old (replace m) st"
| "exec L E (Standardize new old) st = derive ''mean, std'' True new old standardize st"
| "exec L E (Center new old) st = derive ''mean'' True new old center st"
| "exec L E (DelCol c) st =
     (case da st of
        None \<Rightarrow> (st, Some (NameError ''da''))
      | Some d \<Rightarrow>
          (case delcol d c of
             Inl e \<Rightarrow> (st, Some e)
           | Inr d' \<Rightarrow> (st\<lparr>da := Some d'\<rparr>, None)))"
| "exec L E (ValuesInit d) st = (st\<lparr>values_d := Some d\<rparr>, None)"
| "exec L E (ValuesDel k) st =
     (case values_d st of
        None \<Rightarrow> (st, Some (NameError ''values''))
      | Some d \<Rightarrow>
          if k \<in> set (map fst d) then (st\<lparr>values_d := Some (filter (\<lambda>(k', v). k' \<noteq> k) d)\<rparr>, None)
          else (st, Some (KeyError [k])))"
| "exec L E (ValuesSet k v) st =
     (case values_d st of
        None \<Rightarrow> (st, Some (NameError ''values''))
      | Some d \<Rightarrow> (st\<lparr>values_d := Some (setcol_dict d k v)\<rparr>, None))"
| "exec L E (Call f args) st = opaque L (Call f args) (EvCall f args) st id"

text \<open>The script runs its statements in order; the first exception ends the run and
  is its outcome, since nothing catches it.\<close>

fun run :: "library \<Rightarrow> world \<Rightarrow> stmt list \<Rightarrow> state \<Rightarrow> state \<times> error option" where
  "run L E [] st = (st, None)"
| "run L E (s # ss) st =
     (case exec L E s st of
        (st', None) \<Rightarrow> run L E ss st'
      | (st', Some e) \<Rightarrow> (st', Some e))"

subsection \<open>The effects of calls\<close>

datatype effect = ExternalRead | FileWrite | Stdout | Figure | Compute

definition plot_callees :: "string list" where
  "plot_callees =
     [''sns.lineplot'', ''sns.scatterplot'', ''plt.axes'', ''plot_ccpr'', ''add_lowess'',
      ''result.plot_added_variable'', ''ax.fill_between'', ''ax.set_xlabel'',
      ''ax.set_ylabel'', ''pp.set_xlabel'', ''pp.set_ylabel'', ''ax.lines[0].set_alpha'',
      ''ax.lines[1].set_color'', ''fig.axes[0].lines[0].set_alpha'']"

text \<open>Calls that would store something: none of them is in the script.\<close>

definition write_callees :: "string list" where
  "write_callees =
     [''plt.savefig'', ''fig.savefig'', ''da.to_csv'', ''da.to_pickle'', ''da.to_excel'',
      ''result.save'', ''np.save'', ''np.savetxt'', ''open'']"

definition read_callees :: "string list" where
  "read_callees =
     [''pd.read_csv'', ''pd.read_excel'', ''pd.read_pickle'', ''np.load'', ''np.loadtxt'',
      ''input'']"

definition callee_effect :: "string \<Rightarrow> effect" where
  "callee_effect f =
     (if f \<in> set read_callees then ExternalRead
      else if f \<in> set write_callees then FileWrite
      else if f = ''print'' then Stdout
      else if f \<in> set plot_callees then Figure
      else Compute)"

fun effect_of :: "event \<Rightarrow> effect" where
  "effect_of (EvRead u) = ExternalRead"
| "effect_of (EvModel e f d) = Compute"
| "effect_of (EvCall f args) = callee_effect f"

fun read_of :: "event \<Rightarrow> string list" where
  "read_of (EvRead u) = [u]"
| "read_of ev = []"

text \<open>The URLs read, in order.\<close>

definition reads :: "event list \<Rightarrow> string list" where
  "reads t = concat (map read_of t)"

text \<open>The effect of the call a statement makes.\<close>

fun stmt_effect :: "stmt \<Rightarrow> effect" where
  "stmt_effect ReadCsv = ExternalRead"
| "stmt_effect (Call f args) = callee_effect f"
| "stmt_effect s = Compute"

subsection \<open>What a statement is for\<close>

datatype kind = Setup | Load | Prepare | FitModel | Plot | Statistic

text \<open>Imports and plain assignments set up; the read loads; the pandas steps prepare
  the data; \<^verbatim>\<open>from_formula\<close>, \<^verbatim>\<open>fit\<close> and \<^verbatim>\<open>summary\<close> fit a model and report
  it; the plotting calls and \<^verbatim>\<open>predict_functional\<close>, which computes the curve
  that is plotted, make the plots. What is left computes or prints a descriptive
  statistic (\<^verbatim>\<open>std\<close>, \<^verbatim>\<open>corr\<close>, \<^verbatim>\<open>corrcoef\<close>, \<^verbatim>\<open>print\<close>).\<close>

fun kind_of :: "stmt \<Rightarrow> kind" where
  "kind_of (Import m) = Setup"
| "kind_of (AssignUrl u) = Setup"
| "kind_of ReadCsv = Load"
| "kind_of (AssignVars vs) = Setup"
| "kind_of SelectDropna = Prepare"
| "kind_of (FromFormula e f) = FitModel"
| "kind_of Fit = FitModel"
| "kind_of (ReplaceCol new old m) = Prepare"
| "kind_of (Standardize new old) = Prepare"
| "kind_of (Center new old) = Prepare"
| "kind_of (DelCol c) = Prepare"
| "kind_of (ValuesInit d) = Setup"
| "kind_of (ValuesDel k) = Setup"
| "kind_of (ValuesSet k v) = Setup"
| "kind_of (Call f args) =
     (if f \<in> set plot_callees \<or> f = ''predict_functional'' then Plot
      else if f = ''result.summary'' then FitModel
      else Statistic)"

subsection \<open>Predicates on states, statements and frames\<close>

text \<open>The variable \<^verbatim>\<open>url\<close> is unbound or holds the NHANES address; a statement
  assigns no other address to it.\<close>

definition url_ok :: "state \<Rightarrow> bool" where
  "url_ok st = (url st = None \<or> url st = Some nhanes_url)"

fun url_stmt_ok :: "stmt \<Rightarrow> bool" where
  "url_stmt_ok (AssignUrl u) = (u = nhanes_url)"
| "url_stmt_ok s = True"

definition nreads :: "stmt list \<Rightarrow> nat" where
  "nreads ss = length (filter (\<lambda>s. s = ReadCsv) ss)"

fun frame_of :: "event \<Rightarrow> frame list" where
  "frame_of (EvModel e f d) = [d]"
| "frame_of ev = []"

text \<open>The data frames passed to \<^verbatim>\<open>from_formula\<close>, in order.\<close>

definition fit_frames :: "event list \<Rightarrow> frame list" where
  "fit_frames t = concat (map frame_of t)"

definition derived_vars :: "string list" where
  "derived_vars = [''RIAGENDRx'', ''RIDAGEYR_z'', ''RIDAGEYR_cen'']"

text \<open>Column \<open>v\<close> of the frame has no missing value.\<close>

definition no_missing :: "frame \<Rightarrow> string \<Rightarrow> bool" where
  "no_missing d v = (NaN \<notin> set (colof d v))"

text \<open>The standard deviation of the column is a number other than zero.\<close>

definition std_usable :: "column \<Rightarrow> bool" where
  "std_usable c = (case std c of Num s \<Rightarrow> s \<noteq> 0 | _ \<Rightarrow> False)"

text \<open>A frame as the fits may see it: the key columns, the labelled gender and the
  centred age have no missing value, and the standardized age has none when the
  standard deviation of the age can be divided by.\<close>

definition fit_ready :: "frame \<Rightarrow> bool" where
  "fit_ready d =
     ((\<forall>v \<in> set key_vars \<union> {''RIAGENDRx'', ''RIDAGEYR_cen''}. no_missing d v) \<and>
      (std_usable (colof d ''RIDAGEYR'') \<longrightarrow> no_missing d ''RIDAGEYR_z''))"

text \<open>The statements after line 112 touch the data frame only through these
  assignments and this deletion.\<close>

fun analysis_stmt :: "stmt \<Rightarrow> bool" where
  "analysis_stmt ReadCsv = False"
| "analysis_stmt SelectDropna = False"
| "analysis_stmt (ReplaceCol new old m) =
     (new = ''RIAGENDRx'' \<and> old = ''RIAGENDR'' \<and> NaN \<notin> snd ` set m)"
| "analysis_stmt (Standardize new old) = (new = ''RIDAGEYR_z'' \<and> old = ''RIDAGEYR'')"
| "analysis_stmt (Center new old) = (new = ''RIDAGEYR_cen'' \<and> old = ''RIDAGEYR'')"
| "analysis_stmt (DelCol c) = (c = ''RIDAGEYR_z'')"
| "analysis_stmt s = True"

text \<open>How many events of a trace have a given effect, and how many statements.\<close>

definition count_effect :: "effect \<Rightarrow> event list \<Rightarrow> nat" where
  "count_effect x t = length (filter (\<lambda>ev. effect_of ev = x) t)"

definition count_stmts :: "effect \<Rightarrow> stmt list \<Rightarrow> nat" where
  "count_stmts x ss = length (filter (\<lambda>s. stmt_effect s = x) ss)"

text \<open>The state after line 112: the current frame and every frame passed to a fit so
  far are as the fits may see them.\<close>

definition ready_state :: "state \<Rightarrow> bool" where
  "ready_state st =
     ((\<exists>d. da st = Some d \<and> fit_ready d) \<and> list_all fit_ready (fit_frames (trace st)))"

text \<open>Frame \<open>d\<close> has the key columns of \<open>d9\<close> as they are there, and besides them
  derived columns only.\<close>

definition keeps :: "frame \<Rightarrow> frame \<Rightarrow> bool" where
  "keeps d9 d =
     ((\<forall>v \<in> set key_vars. map_of d v = map_of d9 v) \<and>
      set (columns d) \<subseteq> set key_vars \<union> set derived_vars)"

subsection \<open>Example inputs\<close>

text \<open>A library in which no call raises, and a world that answers every read with a
  small table: the key columns, one column more, and one row with a missing value.\<close>

definition no_raise :: library where
  "no_raise st s = None"

definition example_csv :: frame where
  "example_csv =
     [(''SEQN'', [Num 1, Num 2, Num 3, Num 4]),
      (''BPXSY1'', [Num 120, Num 130, NaN, Num 150]),
      (''RIDAGEYR'', [Num 30, Num 50, Num 60, Num 70]),
      (''RIAGENDR'', [Num 1, Num 2, Num 1, Num 2]),
      (''RIDRETH1'', [Num 3, Num 3, Num 4, Num 1]),
      (''DMDEDUC2'', [Num 5, Num 4, Num 3, Num 2]),
      (''BMXBMI'', [Num 27, Num 30, Num 22, Num 25]),
      (''SMQ020'', [Num 1, Num 2, Num 2, Num 1])]"

definition example_world :: world where
  "example_world u = Inr example_csv"

text \<open>A table without the column BMXBMI.\<close>

definition short_csv :: frame where
  "short_csv = filter (\<lambda>(n, c). n \<noteq> ''BMXBMI'') example_csv"

definition short_world :: world where
  "short_world u = Inr short_csv"

text \<open>Six subjects of the same age.\<close>

definition same_age_csv :: frame where
  "same_age_csv =
     [(''BPXSY1'', [Num 120, Num 130, Num 110, Num 140, Num 125, Num 135]),
      (''RIDAGEYR'', [Num 40, Num 40, Num 40, Num 40, Num 40, Num 40]),
      (''RIAGENDR'', [Num 1, Num 2, Num 2, Num 1, Num 1, Num 2]),
      (''RIDRETH1'', [Num 3, Num 3, Num 1, Num 4, Num 2, Num 3]),
      (''DMDEDUC2'', [Num 5, Num 4, Num 3, Num 4, Num 2, Num 5]),
      (''BMXBMI'', [Num 27, Num 30, Num 22, Num 35, Num 25, Num 28]),
      (''SMQ020'', [Num 1, Num 2, Num 2, Num 1, Num 2, Num 1])]"

definition same_age_world :: world where
  "same_age_world u = Inr same_age_csv"

text \<open>The frame of that world when the quadratic model is built (line 613).\<close>

definition same_age_frame :: frame where
  "same_age_frame =
     same_age_csv @
     [(''RIAGENDRx'',
       [Str ''Male'', Str ''Female'', Str ''Female'', Str ''Male'', Str ''Male'', Str ''Female'']),
      (''RIDAGEYR_z'', [NaN, NaN, NaN, NaN, NaN, NaN])]"

text \<open>The frame of the example world when the quadratic model is built.\<close>

definition example_z_frame :: frame where
  "example_z_frame =
     [(''BPXSY1'', [Num 120, Num 130, Num 150]),
      (''RIDAGEYR'', [Num 30, Num 50, Num 70]),
      (''RIAGENDR'', [Num 1, Num 2, Num 2]),
      (''RIDRETH1'', [Num 3, Num 3, Num 1]),
      (''DMDEDUC2'', [Num 5, Num 4, Num 2]),
      (''BMXBMI'', [Num 27, Num 30, Num 25]),
      (''SMQ020'', [Num 1, Num 2, Num 1]),
      (''RIAGENDRx'', [Str ''Male'', Str ''Female'', Str ''Female'']),
      (''RIDAGEYR_z'', [Num (- 1), Num 0, Num 1])]"

section \<open>Properties\<close>

subsection \<open>Rounding\<close>

lemma rne_of_int: "rne (of_int k) = k"
  by (simp add: rne_def)

lemma rnd_zero [simp]: "rnd 0 = 0"
  by (simp add: rnd_def)

lemma expo_bounds:
  assumes "x \<noteq> 0"
  shows "2 powr of_int \<lfloor>log 2 \<bar>x\<bar>\<rfloor> \<le> \<bar>x\<bar>" and "\<bar>x\<bar> < 2 powr (of_int \<lfloor>log 2 \<bar>x\<bar>\<rfloor> + 1)"
  using assms floor_log_eq_powr_iff [of "\<bar>x\<bar>" 2 "\<lfloor>log 2 \<bar>x\<bar>\<rfloor>"] by simp_all

lemma expo_unique:
  assumes "2 powr of_int e \<le> \<bar>x\<bar>" and "\<bar>x\<bar> < 2 powr (of_int e + 1)"
  shows "\<lfloor>log 2 \<bar>x\<bar>\<rfloor> = e"
proof -
  have "0 < (2::real) powr of_int e" by simp
  then have "0 < \<bar>x\<bar>" using assms(1) by linarith
  then show ?thesis using assms floor_log_eq_powr_iff [of "\<bar>x\<bar>" 2 e] by simp
qed

lemma two_powr_nat: "(2::real) powr of_int (int n) = 2 ^ n"
  using powr_realpow [of 2 n] by simp

lemma two_powr_diff: "(2::real) powr (of_int a - of_int b) = 2 powr of_int a / 2 powr of_int b"
  by (rule powr_diff)

text \<open>A number that lies between \<open>2^52\<close> and \<open>2^53\<close> after scaling by \<open>2^p\<close>.\<close>

lemma rnd_scale_up:
  assumes "2 ^ 52 \<le> \<bar>x\<bar> * 2 ^ p" and "\<bar>x\<bar> * 2 ^ p < 2 ^ 53"
  shows "rnd x = of_int (rne (x * 2 ^ p)) / 2 ^ p"
proof -
  have x0: "x \<noteq> 0" using assms(1) by auto
  have pp: "(0::real) < 2 ^ p" by simp
  have e52: "(2::real) powr of_int (52 - int p) = 2 ^ 52 / 2 ^ p"
    using two_powr_diff [of 52 "int p"] two_powr_nat [of 52] two_powr_nat [of p] by simp
  have e53: "(2::real) powr (of_int (52 - int p) + 1) = 2 ^ 53 / 2 ^ p"
  proof -
    have "(of_int (52 - int p) + 1 :: real) = of_int 53 - of_int (int p)" by simp
    then have "(2::real) powr (of_int (52 - int p) + 1) = 2 powr of_int 53 / 2 powr of_int (int p)"
      by (simp only: powr_diff)
    then show ?thesis using two_powr_nat [of 53] two_powr_nat [of p] by simp
  qed
  have lo: "2 powr of_int (52 - int p) \<le> \<bar>x\<bar>"
    unfolding e52 using assms(1) pp by (simp add: pos_divide_le_eq)
  have hi: "\<bar>x\<bar> < 2 powr (of_int (52 - int p) + 1)"
    unfolding e53 using assms(2) pp by (simp add: pos_less_divide_eq)
  have e: "\<lfloor>log 2 \<bar>x\<bar>\<rfloor> = 52 - int p" using lo hi by (rule expo_unique)
  have up: "(2::real) powr (52 - of_int (52 - int p)) = 2 ^ p"
    using two_powr_nat [of p] by simp
  have down: "(2::real) powr (of_int (52 - int p) - 52) = 1 / 2 ^ p"
  proof -
    have "(2::real) powr (of_int (52 - int p) - 52) = 2 powr (- of_int (int p))" by simp
    also have "\<dots> = 1 / 2 powr of_int (int p)" by (rule powr_minus_divide)
    finally show ?thesis by (simp only: two_powr_nat)
  qed
  show ?thesis using x0 by (simp only: rnd_def e up down Let_def if_False) simp
qed

text \<open>A number with at most 53 significant bits is not changed.\<close>

lemma rnd_fixed:
  assumes "\<bar>j\<bar> < 2 ^ 53"
  shows "rnd (of_int j / 2 ^ p) = of_int j / 2 ^ p"
proof (cases "j = 0")
  case True
  then show ?thesis by (simp add: rnd_zero)
next
  case False
  let ?x = "of_int j / (2::real) ^ p"
  define e where "e = \<lfloor>log 2 \<bar>?x\<bar>\<rfloor>"
  have x0: "?x \<noteq> 0" using False by simp
  have lo: "2 powr of_int e \<le> \<bar>?x\<bar>" unfolding e_def using x0 by (rule expo_bounds)
  have jb: "\<bar>of_int j :: real\<bar> < 2 ^ 53"
  proof -
    have "of_int \<bar>j\<bar> < (of_int (2 ^ 53) :: real)" using assms by (simp only: of_int_less_iff)
    then show ?thesis by simp
  qed
  have "\<bar>?x\<bar> < 2 ^ 53 / 2 ^ p"
    using jb by (simp add: abs_divide divide_strict_right_mono)
  also have "\<dots> = 2 powr of_int (53 - int p)"
    using two_powr_diff [of 53 "int p"] two_powr_nat [of 53] two_powr_nat [of p] by simp
  finally have "2 powr of_int e < (2::real) powr of_int (53 - int p)" using lo by linarith
  then have "(of_int e :: real) < of_int (53 - int p)" by (simp only: powr_less_cancel_iff)
  then have elt: "e < 53 - int p" by (simp only: of_int_less_iff)
  define k where "k = nat (52 - e - int p)"
  have k: "int k = 52 - e - int p" using elt by (simp add: k_def)
  have up: "(2::real) powr (52 - of_int e) = 2 ^ k * 2 ^ p"
  proof -
    have "(52::real) - of_int e = of_int (int k) + of_int (int p)" using k by simp
    then have "(2::real) powr (52 - of_int e) = 2 powr of_int (int k) * 2 powr of_int (int p)"
      by (simp only: powr_add)
    then show ?thesis by (simp only: two_powr_nat)
  qed
  have down: "(2::real) powr (of_int e - 52) = 1 / (2 ^ k * 2 ^ p)"
  proof -
    have "(2::real) powr (of_int e - 52) = 2 powr (- (52 - of_int e))" by simp
    also have "\<dots> = 1 / 2 powr (52 - of_int e)" by (rule powr_minus_divide)
    finally show ?thesis by (simp only: up)
  qed
  have scaled: "?x * (2 ^ k * 2 ^ p) = of_int (j * 2 ^ k)" by simp
  have "rnd ?x = of_int (rne (?x * 2 powr (52 - of_int e))) * 2 powr (of_int e - 52)"
    using x0 by (simp only: rnd_def e_def Let_def if_False)
  also have "\<dots> = of_int (j * 2 ^ k) * (1 / (2 ^ k * 2 ^ p))"
    by (simp only: up down scaled rne_of_int)
  also have "\<dots> = ?x" by simp
  finally show ?thesis .
qed

lemma rnd_of_int: "\<bar>j\<bar> < 2 ^ 53 \<Longrightarrow> rnd (of_int j) = of_int j"
  using rnd_fixed [of j 0] by simp


lemma rne_lower: "of_int (rne q) \<ge> q - 1 / 2"
  by (auto simp: rne_def Let_def) linarith+

lemma rne_upper: "of_int (rne q) \<le> q + 1 / 2"
  by (auto simp: rne_def Let_def) linarith+

lemma rnd_sign:
  assumes "x \<noteq> 0"
  shows "rnd x \<noteq> 0" and "0 < x \<Longrightarrow> 0 < rnd x"
proof -
  define e where "e = \<lfloor>log 2 \<bar>x\<bar>\<rfloor>"
  define t where "t = x * 2 powr (52 - of_int e)"
  have lo: "2 powr of_int e \<le> \<bar>x\<bar>" unfolding e_def using assms by (rule expo_bounds)
  have r: "rnd x = of_int (rne t) * 2 powr (of_int e - 52)"
    using assms by (simp only: rnd_def e_def t_def Let_def if_False)
  have "2 powr of_int e * 2 powr (52 - of_int e) \<le> \<bar>x\<bar> * 2 powr (52 - of_int e)"
    using lo by (simp add: mult_right_mono)
  moreover have "2 powr of_int e * 2 powr (52 - of_int e) = (2::real) ^ 52"
    by (simp flip: powr_add)
  moreover have "\<bar>t\<bar> = \<bar>x\<bar> * 2 powr (52 - of_int e)"
    by (simp add: t_def abs_mult)
  ultimately have big: "2 ^ 52 \<le> \<bar>t\<bar>" by simp
  have pos: "0 < (2::real) powr (of_int e - 52)" by simp
  have "rne t \<noteq> 0"
  proof
    assume "rne t = 0"
    then have "\<bar>t\<bar> \<le> 1 / 2" using rne_lower [of t] rne_upper [of t] by simp
    with big show False by simp
  qed
  then show "rnd x \<noteq> 0" using pos by (simp add: r)
  assume "0 < x"
  then have "0 < t" by (simp add: t_def)
  then have "2 ^ 52 \<le> t" using big by simp
  then have "0 < (of_int (rne t) :: real)" using rne_lower [of t] by simp
  then show "0 < rnd x" using pos by (simp add: r)
qed

lemma rnd_eq_0_iff: "rnd x = 0 \<longleftrightarrow> x = 0"
  using rnd_sign(1) rnd_zero by blast

lemma rnd_nonneg: "0 \<le> x \<Longrightarrow> 0 \<le> rnd x"
  using rnd_sign(2) [of x] rnd_zero by (cases "x = 0") (simp_all add: less_imp_le)


lemma rnd_numeral [simp]:
  "(numeral n :: int) < 9007199254740992 \<Longrightarrow> rnd (numeral n) = numeral n"
  using rnd_of_int [of "numeral n"] by simp

lemma rnd_neg_numeral [simp]:
  "(numeral n :: int) < 9007199254740992 \<Longrightarrow> rnd (- numeral n) = - numeral n"
  using rnd_of_int [of "- numeral n"] by simp

lemma rnd_one [simp]: "rnd 1 = 1" and rnd_neg_one [simp]: "rnd (- 1) = - 1"
  using rnd_of_int [of 1] rnd_of_int [of "- 1"] by simp_all

lemma fsum_id: "fsum id a xs = a + sum_list xs"
  by (induction xs arbitrary: a) simp_all

lemma fsum_rnd_nonneg:
  assumes "0 \<le> a" and "\<forall>x \<in> set xs. 0 \<le> x"
  shows "0 \<le> fsum rnd a xs"
  using assms by (induction xs arbitrary: a) (simp_all add: rnd_nonneg)

lemma fsum_rnd_zero:
  assumes "0 \<le> a" and "\<forall>x \<in> set xs. 0 \<le> x" and "fsum rnd a xs = 0"
  shows "a = 0 \<and> (\<forall>x \<in> set xs. x = 0)"
  using assms
proof (induction xs arbitrary: a)
  case Nil
  then show ?case by simp
next
  case (Cons x xs)
  have x: "0 \<le> x" using Cons.prems(2) by simp
  have "0 \<le> rnd (a + x)" using Cons.prems(1) x by (simp add: rnd_nonneg)
  moreover have "fsum rnd (rnd (a + x)) xs = 0" using Cons.prems(3) by simp
  ultimately have "rnd (a + x) = 0 \<and> (\<forall>y \<in> set xs. y = 0)"
    using Cons.IH Cons.prems(2) by simp
  then have "a + x = 0" and rest: "\<forall>y \<in> set xs. y = 0" by (simp_all add: rnd_eq_0_iff)
  then have "a = 0" and "x = 0" using Cons.prems(1) x by linarith+
  then show ?case using rest by simp
qed

subsection \<open>Running a list of statements\<close>

lemma run_Cons_if:
  "run L E (s # ss) st =
     (if snd (exec L E s st) = None then run L E ss (fst (exec L E s st)) else exec L E s st)"
  by (cases "exec L E s st") (auto split: option.splits)

lemma run_append:
  "run L E (xs @ ys) st =
     (if snd (run L E xs st) = None then run L E ys (fst (run L E xs st)) else run L E xs st)"
proof (induction xs arbitrary: st)
  case Nil
  show ?case by simp
next
  case (Cons x xs)
  show ?case
  proof (cases "exec L E x st")
    case (Pair st' r)
    then show ?thesis using Cons.IH [of st'] by (cases r) simp_all
  qed
qed

lemma run_invariant:
  assumes "I st" and "\<And>s st. s \<in> set ss \<Longrightarrow> I st \<Longrightarrow> I (fst (exec L E s st))"
  shows "I (fst (run L E ss st))"
  using assms
proof (induction ss arbitrary: st)
  case Nil
  then show ?case by simp
next
  case (Cons x xs)
  have step: "I (fst (exec L E x st))" using Cons.prems by simp
  have rest: "I (fst (run L E xs (fst (exec L E x st))))"
    using Cons.IH [OF step] Cons.prems(2) by simp
  show ?case
  proof (cases "snd (exec L E x st) = None")
    case True
    then show ?thesis using rest by (simp add: run_Cons_if del: run.simps)
  next
    case False
    then show ?thesis using step by (auto simp add: run_Cons_if simp del: run.simps)
  qed
qed

lemma run_raises_at:
  assumes k: "k < length ss"
    and pre: "run L E (take k ss) st = (st_k, None)"
    and ex: "exec L E (ss ! k) st_k = (st', Some e)"
  shows "run L E ss st = (st', Some e)"
proof -
  have "ss = take k ss @ (ss ! k # drop (Suc k) ss)"
    using k by (simp add: id_take_nth_drop [symmetric])
  then have "run L E ss st = run L E (take k ss @ (ss ! k # drop (Suc k) ss)) st"
    by simp
  also have "\<dots> = run L E (ss ! k # drop (Suc k) ss) st_k"
    using pre by (simp add: run_append)
  also have "\<dots> = (st', Some e)"
    using ex by simp
  finally show ?thesis .
qed

subsection \<open>The address that is read\<close>

lemma exec_url_ok: "url_ok st \<Longrightarrow> url_stmt_ok s \<Longrightarrow> url_ok (fst (exec L E s st))"
  by (cases s)
    (auto simp: url_ok_def opaque_def derive_def emit_def split: option.splits sum.splits)

lemma program_url_ok: "list_all url_stmt_ok program"
  by (simp add: program_def load_part_def analysis_part_def)

subsection \<open>What is read\<close>

lemma exec_reads:
  "url_ok st \<Longrightarrow>
   reads (trace (fst (exec L E s st))) =
     reads (trace st) @ (if s = ReadCsv \<and> url st \<noteq> None then [nhanes_url] else [])"
  by (cases s)
    (auto simp: url_ok_def reads_def opaque_def derive_def emit_def
          split: option.splits sum.splits)

lemma exec_ReadCsv_ok: "snd (exec L E ReadCsv st) = None \<Longrightarrow> url st \<noteq> None"
  by (auto split: option.splits)

lemma run_Cons_cases:
  obtains (go) "snd (exec L E x st) = None"
      "run L E (x # xs) st = run L E xs (fst (exec L E x st))"
    | (stop) "snd (exec L E x st) \<noteq> None" "run L E (x # xs) st = exec L E x st"
  by (cases "snd (exec L E x st) = None") (simp_all add: run_Cons_if del: run.simps)

lemma nreads_Cons: "nreads (x # xs) = (if x = ReadCsv then 1 else 0) + nreads xs"
  by (simp add: nreads_def)

lemma run_reads_bound:
  assumes "list_all url_stmt_ok ss" and "url_ok st"
  shows "\<exists>n\<le>nreads ss. reads (trace (fst (run L E ss st))) = reads (trace st) @ replicate n nhanes_url"
  using assms
proof (induction ss arbitrary: st)
  case Nil
  then show ?case by (simp add: nreads_def)
next
  case (Cons x xs)
  let ?st = "fst (exec L E x st)"
  define m :: nat where "m = (if x = ReadCsv \<and> url st \<noteq> None then 1 else 0)"
  have m: "m \<le> (if x = ReadCsv then 1 else 0)" by (simp add: m_def)
  have ok: "url_ok ?st" using Cons.prems by (simp add: exec_url_ok)
  have here: "reads (trace ?st) = reads (trace st) @ replicate m nhanes_url"
    using Cons.prems(2) by (simp add: exec_reads m_def del: exec.simps)
  show ?case
  proof (cases rule: run_Cons_cases [of L E x st xs])
    case go
    obtain n where n: "n \<le> nreads xs"
      "reads (trace (fst (run L E xs ?st))) = reads (trace ?st) @ replicate n nhanes_url"
      using Cons.IH [OF _ ok] Cons.prems(1) by auto
    have "reads (trace (fst (run L E (x # xs) st))) =
        reads (trace st) @ replicate (m + n) nhanes_url"
      using go(2) n(2) here by (simp add: replicate_add del: run.simps exec.simps)
    moreover have "m + n \<le> nreads (x # xs)" using m n(1) by (simp add: nreads_Cons)
    ultimately show ?thesis by blast
  next
    case stop
    have "reads (trace (fst (run L E (x # xs) st))) = reads (trace st) @ replicate m nhanes_url"
      using stop(2) here by (simp del: run.simps exec.simps)
    moreover have "m \<le> nreads (x # xs)" using m by (simp add: nreads_Cons)
    ultimately show ?thesis by blast
  qed
qed

lemma run_reads_done:
  assumes "list_all url_stmt_ok ss" and "url_ok st" and "snd (run L E ss st) = None"
  shows "reads (trace (fst (run L E ss st))) = reads (trace st) @ replicate (nreads ss) nhanes_url"
  using assms
proof (induction ss arbitrary: st)
  case Nil
  then show ?case by (simp add: nreads_def)
next
  case (Cons x xs)
  let ?st = "fst (exec L E x st)"
  have ok: "url_ok ?st" using Cons.prems by (simp add: exec_url_ok)
  show ?case
  proof (cases rule: run_Cons_cases [of L E x st xs])
    case go
    have rest: "snd (run L E xs ?st) = None" using Cons.prems(3) go(2) by simp
    have bound: "x = ReadCsv \<Longrightarrow> url st \<noteq> None"
      using go(1) exec_ReadCsv_ok by blast
    have here: "reads (trace ?st) =
        reads (trace st) @ replicate (if x = ReadCsv then 1 else 0) nhanes_url"
      using Cons.prems(2) bound by (simp add: exec_reads del: exec.simps)
    have "reads (trace (fst (run L E xs ?st))) =
        reads (trace ?st) @ replicate (nreads xs) nhanes_url"
      using Cons.IH [OF _ ok rest] Cons.prems(1) by simp
    then show ?thesis
      using go(2) here by (simp add: nreads_Cons replicate_add del: run.simps exec.simps)
  next
    case stop
    then show ?thesis using Cons.prems(3) by simp
  qed
qed

lemma nreads_program: "nreads program = 1"
  by (simp add: nreads_def program_def load_part_def analysis_part_def)

lemma url_ok_s0: "url_ok s0"
  by (simp add: url_ok_def s0_def)

lemma reads_s0: "reads (trace s0) = []"
  by (simp add: reads_def s0_def)

lemma program_reads:
  "reads (trace (fst (run L E program s0))) = [nhanes_url] \<or>
   reads (trace (fst (run L E program s0))) = []"
proof -
  obtain n where "n \<le> 1" and "reads (trace (fst (run L E program s0))) = replicate n nhanes_url"
    using run_reads_bound [OF program_url_ok url_ok_s0, of L E]
    by (auto simp: nreads_program reads_s0)
  then show ?thesis by (cases n) auto
qed

lemma program_reads_done:
  "snd (run L E program s0) = None \<Longrightarrow> reads (trace (fst (run L E program s0))) = [nhanes_url]"
  using run_reads_done [OF program_url_ok url_ok_s0, of L E]
  by (simp add: nreads_program reads_s0)

text \<open>Claim C4: the script handles no exception. When the statement at position \<open>k\<close>
  raises \<open>e\<close> in the state the first \<open>k\<close> statements have produced, the run of the
  whole script ends there with the same \<open>e\<close>: it is not caught or translated, and no
  later statement runs.\<close>

theorem exception_propagates:
  assumes "k < length program"
    and "run L E (take k program) s0 = (st_k, None)"
    and "exec L E (program ! k) st_k = (st', Some e)"
  shows "run L E program s0 = (st', Some e)"
  using assms by (rule run_raises_at)

subsection \<open>The effects of a run\<close>

lemma callee_effect_fixed:
  "callee_effect ''import'' = Compute"
  "callee_effect ''model.fit'' = Compute"
  "callee_effect ''replace'' = Compute"
  "callee_effect ''mean, std'' = Compute"
  "callee_effect ''mean'' = Compute"
  "callee_effect ''da[vars]'' = Compute"
  "callee_effect ''da[vars].dropna'' = Compute"
  by (simp_all add: callee_effect_def read_callees_def write_callees_def plot_callees_def)

lemma exec_count_effect:
  "count_effect x (trace (fst (exec L E s st))) \<le>
     count_effect x (trace st) + (if stmt_effect s = x then 1 else 0)"
  by (cases s)
    (auto simp: count_effect_def opaque_def derive_def emit_def callee_effect_fixed
          split: option.splits sum.splits)

lemma count_stmts_Cons:
  "count_stmts x (s # ss) = (if stmt_effect s = x then 1 else 0) + count_stmts x ss"
  by (simp add: count_stmts_def)

lemma run_count_effect:
  "count_effect x (trace (fst (run L E ss st))) \<le> count_effect x (trace st) + count_stmts x ss"
proof (induction ss arbitrary: st)
  case Nil
  show ?case by simp
next
  case (Cons s ss)
  have here: "count_effect x (trace (fst (exec L E s st))) \<le>
      count_effect x (trace st) + (if stmt_effect s = x then 1 else 0)"
    by (rule exec_count_effect)
  show ?case
  proof (cases rule: run_Cons_cases [of L E s st ss])
    case go
    have "count_effect x (trace (fst (run L E ss (fst (exec L E s st))))) \<le>
        count_effect x (trace (fst (exec L E s st))) + count_stmts x ss"
      by (rule Cons.IH)
    then show ?thesis using go(2) here by (simp add: count_stmts_Cons del: run.simps exec.simps)
  next
    case stop
    then show ?thesis using here by (simp add: count_stmts_Cons del: run.simps exec.simps)
  qed
qed

lemma count_stmts_program:
  "count_stmts FileWrite program = 0"
  "count_stmts ExternalRead program = 1"
  "count_stmts Stdout program = 3"
  by (simp_all add: count_stmts_def program_def load_part_def analysis_part_def
      callee_effect_def read_callees_def write_callees_def plot_callees_def)

lemma count_effect_s0: "count_effect x (trace s0) = 0"
  by (simp add: count_effect_def s0_def)

lemma exec_count_done:
  assumes "snd (exec L E s st) = None" and "x \<noteq> Compute" and "x \<noteq> ExternalRead"
  shows "count_effect x (trace (fst (exec L E s st))) =
     count_effect x (trace st) + (if stmt_effect s = x then 1 else 0)"
  using assms
  by (cases s)
    (auto simp: count_effect_def opaque_def derive_def emit_def callee_effect_fixed
          split: option.splits sum.splits if_splits)

lemma run_count_done:
  assumes "snd (run L E ss st) = None" and "x \<noteq> Compute" and "x \<noteq> ExternalRead"
  shows "count_effect x (trace (fst (run L E ss st))) = count_effect x (trace st) + count_stmts x ss"
  using assms(1)
proof (induction ss arbitrary: st)
  case Nil
  show ?case by (simp add: count_stmts_def)
next
  case (Cons s ss)
  show ?case
  proof (cases rule: run_Cons_cases [of L E s st ss])
    case go
    have rest: "snd (run L E ss (fst (exec L E s st))) = None"
      using Cons.prems go(2) by simp
    have "count_effect x (trace (fst (exec L E s st))) =
        count_effect x (trace st) + (if stmt_effect s = x then 1 else 0)"
      using go(1) assms(2,3) by (rule exec_count_done)
    then show ?thesis
      using Cons.IH [OF rest] go(2) by (simp add: count_stmts_Cons del: run.simps exec.simps)
  next
    case stop
    then show ?thesis using Cons.prems by simp
  qed
qed

text \<open>Claim C8: whatever the library and the world do, the script reads one external
  source at most once, the NHANES CSV at the address written in line 107, and nothing
  else: no other call of a run reads from outside. A run that completes has read the
  CSV exactly once.\<close>

theorem only_nhanes_csv_read:
  "(reads (trace (fst (run L E program s0))) = [nhanes_url] \<or>
    reads (trace (fst (run L E program s0))) = []) \<and>
   count_effect ExternalRead (trace (fst (run L E program s0))) \<le> 1 \<and>
   (snd (run L E program s0) = None \<longrightarrow>
    reads (trace (fst (run L E program s0))) = [nhanes_url])"
proof (intro conjI)
  show "reads (trace (fst (run L E program s0))) = [nhanes_url] \<or>
    reads (trace (fst (run L E program s0))) = []"
    by (rule program_reads)
  show "count_effect ExternalRead (trace (fst (run L E program s0))) \<le> 1"
    using run_count_effect [of ExternalRead L E program s0]
    by (simp add: count_stmts_program count_effect_s0)
  show "snd (run L E program s0) = None \<longrightarrow>
    reads (trace (fst (run L E program s0))) = [nhanes_url]"
    using program_reads_done by blast
qed

text \<open>Claim C9, as amended: the script stores nothing. In every run no call writes a
  file or anything else outside; what it does to the outside is to read, at most once,
  the remote CSV (exactly once, and nothing else, in a run that completes), to print
  at most three values to standard output (exactly three in a run that completes),
  and to draw figures.\<close>

theorem no_storage_effects:
  "count_effect FileWrite (trace (fst (run L E program s0))) = 0 \<and>
   count_effect ExternalRead (trace (fst (run L E program s0))) \<le> 1 \<and>
   count_effect Stdout (trace (fst (run L E program s0))) \<le> 3 \<and>
   (snd (run L E program s0) = None \<longrightarrow>
    count_effect Stdout (trace (fst (run L E program s0))) = 3 \<and>
    reads (trace (fst (run L E program s0))) = [nhanes_url])"
proof (intro conjI impI)
  show "count_effect FileWrite (trace (fst (run L E program s0))) = 0"
    using run_count_effect [of FileWrite L E program s0]
    by (simp add: count_stmts_program count_effect_s0)
  show "count_effect ExternalRead (trace (fst (run L E program s0))) \<le> 1"
    using run_count_effect [of ExternalRead L E program s0]
    by (simp add: count_stmts_program count_effect_s0)
  show "count_effect Stdout (trace (fst (run L E program s0))) \<le> 3"
    using run_count_effect [of Stdout L E program s0]
    by (simp add: count_stmts_program count_effect_s0)
  assume fin: "snd (run L E program s0) = None"
  then show "count_effect Stdout (trace (fst (run L E program s0))) = 3"
    using run_count_done [of L E program s0 Stdout]
    by (simp add: count_stmts_program count_effect_s0)
  show "reads (trace (fst (run L E program s0))) = [nhanes_url]"
    using fin by (rule program_reads_done)
qed

subsection \<open>Frames\<close>

lemma dropna_clean:
  assumes "(n, c) \<in> set (dropna df)"
  shows "NaN \<notin> set c"
proof
  assume bad: "NaN \<in> set c"
  obtain c0 where c0: "(n, c0) \<in> set df"
    and c: "c = map ((!) c0) (filter (row_ok df) [0..<nrows df])"
    using assms by (auto simp: dropna_def)
  from bad c obtain i where i: "row_ok df i" "c0 ! i = NaN" by auto
  from i(1) c0 have "c0 ! i \<noteq> NaN" by (auto simp: row_ok_def list_all_iff)
  with i(2) show False by simp
qed

lemma no_missing_dropna: "no_missing (dropna df) v"
proof (cases "map_of (dropna df) v")
  case None
  then show ?thesis by (simp add: no_missing_def colof_def)
next
  case (Some c)
  then have "(v, c) \<in> set (dropna df)" by (rule map_of_SomeD)
  then have "NaN \<notin> set c" by (rule dropna_clean)
  then show ?thesis using Some by (simp add: no_missing_def colof_def)
qed

lemma fit_ready_dropna: "fit_ready (dropna df)"
  by (simp add: fit_ready_def no_missing_dropna)

lemma columns_dropna: "columns (dropna df) = columns df"
  by (simp add: dropna_def columns_def case_prod_unfold)

lemma select_columns: "select df vs = Inr d \<Longrightarrow> columns d = vs"
  by (auto simp: select_def columns_def Let_def comp_def split: if_splits)

lemma map_of_assign_other:
  "v \<noteq> n \<Longrightarrow>
   map_of (map (\<lambda>(n', c'). if n' = n then (n', c) else (n', c')) d) v = map_of d v"
  by (induction d) auto

lemma map_of_assign_same:
  "n \<in> fst ` set d \<Longrightarrow>
   map_of (map (\<lambda>(n', c'). if n' = n then (n', c) else (n', c')) d) n = Some c"
  by (induction d) auto

lemma columns_assign:
  "map fst (map (\<lambda>(n', c'). if n' = n then (n', c) else (n', c')) d) = map fst d"
  by (induction d) auto

lemma map_of_setcol:
  "map_of (setcol d n c) v = (if v = n then Some c else map_of d v)"
proof (cases "n \<in> set (columns d)")
  case True
  then show ?thesis
    by (simp add: setcol_def columns_def map_of_assign_other map_of_assign_same)
next
  case False
  then have "map_of d n = None" by (simp add: columns_def map_of_eq_None_iff)
  then show ?thesis using False by (auto simp: setcol_def map_add_def split: option.splits)
qed

lemma colof_setcol: "colof (setcol d n c) v = (if v = n then c else colof d v)"
  by (simp add: colof_def map_of_setcol)

lemma columns_setcol: "set (columns (setcol d n c)) = insert n (set (columns d))"
proof (cases "n \<in> set (columns d)")
  case True
  then show ?thesis
    using columns_assign [of n c d] by (auto simp: setcol_def columns_def)
next
  case False
  then show ?thesis by (simp add: setcol_def columns_def)
qed

lemma map_of_remove:
  "map_of (filter (\<lambda>(n, c). n \<noteq> name) d) v = (if v = name then None else map_of d v)"
  by (induction d) auto

lemma colof_remove:
  "colof (filter (\<lambda>(n, c). n \<noteq> name) d) v = (if v = name then [] else colof d v)"
  by (simp add: colof_def map_of_remove)

lemma columns_remove: "set (columns (filter (\<lambda>(n, c). n \<noteq> name) d)) \<subseteq> set (columns d)"
  by (auto simp: columns_def)

subsection \<open>Columns without missing values\<close>

lemma nums_nonempty: "Num a \<in> set c \<Longrightarrow> nums c \<noteq> []"
  by (induction c rule: nums.induct) auto

lemma cell_cases: "\<not> is_Str x \<Longrightarrow> x \<noteq> NaN \<Longrightarrow> \<exists>a. x = Num a"
  by (cases x) auto

lemma mean_r_Num: "nums c \<noteq> [] \<Longrightarrow> \<exists>m. mean_r r c = Num m"
  by (simp add: mean_r_def)

lemma center_clean:
  assumes "\<not> list_ex is_Str c" and "NaN \<notin> set c"
  shows "NaN \<notin> set (center c)"
proof
  assume "NaN \<in> set (center c)"
  then obtain x where x: "x \<in> set c" "fsub rnd x (mean_r rnd c) = NaN"
    by (auto simp: center_def center_r_def)
  obtain a where a: "x = Num a"
    using assms x(1) cell_cases [of x] by (auto simp: list_ex_iff)
  then have "nums c \<noteq> []" using x(1) nums_nonempty by blast
  then obtain m where "mean_r rnd c = Num m" using mean_r_Num by blast
  then show False using x(2) a by simp
qed

lemma standardize_clean:
  assumes "\<not> list_ex is_Str c" and "NaN \<notin> set c" and "std_usable c"
  shows "NaN \<notin> set (standardize c)"
proof
  assume "NaN \<in> set (standardize c)"
  then obtain x where x: "x \<in> set c" "fdiv rnd (fsub rnd x (mean_r rnd c)) (std_r rnd c) = NaN"
    by (auto simp: standardize_def standardize_r_def)
  obtain a where a: "x = Num a"
    using assms(1,2) x(1) cell_cases [of x] by (auto simp: list_ex_iff)
  then have "nums c \<noteq> []" using x(1) nums_nonempty by blast
  then obtain m where m: "mean_r rnd c = Num m" using mean_r_Num by blast
  obtain s where s: "std_r rnd c = Num s" "s \<noteq> 0"
    using assms(3) by (auto simp: std_usable_def std_def split: cell.splits)
  show False using x(2) a m s by simp
qed

lemma replace_clean:
  assumes "NaN \<notin> set c" and "NaN \<notin> snd ` set m"
  shows "NaN \<notin> set (replace m c)"
proof
  assume "NaN \<in> set (replace m c)"
  then obtain x where x: "x \<in> set c" "(case map_of m x of Some v \<Rightarrow> v | None \<Rightarrow> x) = NaN"
    by (auto simp: replace_def)
  show False
  proof (cases "map_of m x")
    case None
    then show ?thesis using x assms(1) by simp
  next
    case (Some v)
    then have "(x, v) \<in> set m" by (rule map_of_SomeD)
    then have "v \<in> snd ` set m" by force
    then show ?thesis using x(2) Some assms(2) by simp
  qed
qed

lemma fit_ready_replace:
  assumes "fit_ready d" and "NaN \<notin> snd ` set m"
  shows "fit_ready (setcol d ''RIAGENDRx'' (replace m (colof d ''RIAGENDR'')))"
proof -
  have "NaN \<notin> set (colof d ''RIAGENDR'')"
    using assms(1) by (simp add: fit_ready_def no_missing_def key_vars_def)
  then have "NaN \<notin> set (replace m (colof d ''RIAGENDR''))"
    using assms(2) by (rule replace_clean)
  then show ?thesis
    using assms(1) by (simp add: fit_ready_def no_missing_def key_vars_def colof_setcol)
qed

lemma fit_ready_center:
  assumes "fit_ready d" and "\<not> list_ex is_Str (colof d ''RIDAGEYR'')"
  shows "fit_ready (setcol d ''RIDAGEYR_cen'' (center (colof d ''RIDAGEYR'')))"
proof -
  have "NaN \<notin> set (colof d ''RIDAGEYR'')"
    using assms(1) by (simp add: fit_ready_def no_missing_def key_vars_def)
  with assms(2) have "NaN \<notin> set (center (colof d ''RIDAGEYR''))"
    by (rule center_clean)
  then show ?thesis
    using assms(1) by (simp add: fit_ready_def no_missing_def key_vars_def colof_setcol)
qed

lemma fit_ready_standardize:
  assumes "fit_ready d" and "\<not> list_ex is_Str (colof d ''RIDAGEYR'')"
  shows "fit_ready (setcol d ''RIDAGEYR_z'' (standardize (colof d ''RIDAGEYR'')))"
proof -
  have clean: "NaN \<notin> set (colof d ''RIDAGEYR'')"
    using assms(1) by (simp add: fit_ready_def no_missing_def key_vars_def)
  have "std_usable (colof d ''RIDAGEYR'') \<Longrightarrow> NaN \<notin> set (standardize (colof d ''RIDAGEYR''))"
    using assms(2) clean by (rule standardize_clean)
  then show ?thesis
    using assms(1) by (simp add: fit_ready_def no_missing_def key_vars_def colof_setcol)
qed

lemma fit_ready_remove:
  assumes "fit_ready d"
  shows "fit_ready (filter (\<lambda>(n, c). n \<noteq> ''RIDAGEYR_z'') d)"
  using assms by (simp add: fit_ready_def no_missing_def key_vars_def colof_remove)


lemma keeps_refl: "columns d = key_vars \<Longrightarrow> keeps d d"
  by (simp add: keeps_def)

lemma keeps_setcol:
  assumes "keeps d9 d" and "n \<in> set derived_vars"
  shows "keeps d9 (setcol d n c)"
proof -
  have "n \<notin> set key_vars" using assms(2) by (auto simp: derived_vars_def key_vars_def)
  then have "\<forall>v \<in> set key_vars. map_of (setcol d n c) v = map_of d v"
    by (auto simp: map_of_setcol)
  then show ?thesis using assms by (auto simp: keeps_def columns_setcol)
qed

lemma keeps_remove:
  assumes "keeps d9 d" and "n \<in> set derived_vars"
  shows "keeps d9 (filter (\<lambda>(n', c). n' \<noteq> n) d)"
proof -
  have "n \<notin> set key_vars" using assms(2) by (auto simp: derived_vars_def key_vars_def)
  then have "\<forall>v \<in> set key_vars. map_of (filter (\<lambda>(n', c). n' \<noteq> n) d) v = map_of d v"
    by (auto simp: map_of_remove)
  then show ?thesis
    using assms(1) columns_remove [of n d] by (auto simp: keeps_def)
qed

subsection \<open>One statement after line 112\<close>

lemma exec_ready:
  assumes "analysis_stmt s" and "ready_state st"
  shows "ready_state (fst (exec L E s st))"
  using assms
  by (cases s)
    (auto simp: ready_state_def fit_frames_def opaque_def derive_def emit_def delcol_def
          fit_ready_replace fit_ready_center fit_ready_standardize fit_ready_remove
          split: option.splits sum.splits if_splits)

lemma exec_keeps:
  assumes "analysis_stmt s" and "\<exists>d. da st = Some d \<and> keeps d9 d"
  shows "\<exists>d. da (fst (exec L E s st)) = Some d \<and> keeps d9 d"
  using assms
  by (cases s)
    (auto simp: opaque_def derive_def emit_def delcol_def derived_vars_def
          intro!: keeps_setcol keeps_remove
          split: option.splits sum.splits if_splits)

lemma analysis_part_stmts: "s \<in> set analysis_part \<Longrightarrow> analysis_stmt s"
  by (auto simp: analysis_part_def)

subsection \<open>The load\<close>

lemma load_result:
  assumes "run L E load_part s0 = (st, None)"
  shows "\<exists>csv d'. E nhanes_url = Inr csv \<and> select csv key_vars = Inr d' \<and>
           da st = Some (dropna d') \<and> fit_frames (trace st) = []"
  using assms
  by (auto simp: load_part_def run_Cons_if opaque_def emit_def s0_def fit_frames_def
        simp del: run.simps(2) split: option.splits sum.splits if_splits)

lemma exec_no_fit:
  "formula_of s = [] \<Longrightarrow> fit_frames (trace (fst (exec L E s st))) = fit_frames (trace st)"
  by (cases s)
    (auto simp: fit_frames_def opaque_def derive_def emit_def split: option.splits sum.splits)

lemma load_no_fits: "fit_frames (trace (fst (run L E load_part s0))) = []"
proof (rule run_invariant)
  show "fit_frames (trace s0) = []" by (simp add: fit_frames_def s0_def)
next
  fix s and st :: state
  assume "s \<in> set load_part" and "fit_frames (trace st) = []"
  moreover from this(1) have "formula_of s = []" by (auto simp: load_part_def)
  ultimately show "fit_frames (trace (fst (exec L E s st))) = []" by (simp add: exec_no_fit)
qed

lemma program_frames_ready:
  assumes "d \<in> set (fit_frames (trace (fst (run L E program s0))))"
  shows "fit_ready d"
proof (cases "snd (run L E load_part s0) = None")
  case True
  define st9 where "st9 = fst (run L E load_part s0)"
  have load: "run L E load_part s0 = (st9, None)"
    using True by (simp add: st9_def prod_eq_iff)
  then obtain d' where "da st9 = Some (dropna d')" and "fit_frames (trace st9) = []"
    using load_result by blast
  then have "ready_state st9" by (simp add: ready_state_def fit_ready_dropna)
  then have "ready_state (fst (run L E analysis_part st9))"
    by (rule run_invariant) (simp add: analysis_part_stmts exec_ready)
  moreover have "run L E program s0 = run L E analysis_part st9"
    using load by (simp add: program_def run_append)
  ultimately show ?thesis using assms by (simp add: ready_state_def list_all_iff)
next
  case False
  then have "run L E program s0 = run L E load_part s0"
    by (auto simp: program_def run_append)
  then show ?thesis using assms load_no_fits [of L E] by simp
qed

text \<open>Claim C5, as amended: whatever the library and the world do, every data frame
  that the script passes to a model fit has no missing value in the seven key columns,
  in RIAGENDRx and in RIDAGEYR_cen; it has none in RIDAGEYR_z when the standard
  deviation of RIDAGEYR is a number other than zero (line 612 divides by it).\<close>

theorem fit_data_not_missing:
  assumes "d \<in> set (fit_frames (trace (fst (run L E program s0))))"
  shows "(\<forall>v \<in> set key_vars \<union> {''RIAGENDRx'', ''RIDAGEYR_cen''}. no_missing d v) \<and>
         (std_usable (colof d ''RIDAGEYR'') \<longrightarrow> no_missing d ''RIDAGEYR_z'')"
  using program_frames_ready [OF assms] by (simp add: fit_ready_def)

lemma take_analysis_stmts: "s \<in> set (take k analysis_part) \<Longrightarrow> analysis_stmt s"
  by (rule analysis_part_stmts) (rule in_set_takeD)

lemma run_keeps:
  assumes "\<exists>d. da st = Some d \<and> keeps d9 d" and "\<forall>s \<in> set ss. analysis_stmt s"
  shows "\<exists>d. da (fst (run L E ss st)) = Some d \<and> keeps d9 d"
  using assms
proof (induction ss arbitrary: st)
  case Nil
  then show ?case by simp
next
  case (Cons x xs)
  have step: "\<exists>d. da (fst (exec L E x st)) = Some d \<and> keeps d9 d"
    using Cons.prems by (simp add: exec_keeps)
  show ?case
  proof (cases rule: run_Cons_cases [of L E x st xs])
    case go
    have "\<exists>d. da (fst (run L E xs (fst (exec L E x st)))) = Some d \<and> keeps d9 d"
      using Cons.IH [OF step] Cons.prems(2) by simp
    then show ?thesis using go(2) by simp
  next
    case stop
    then show ?thesis using step by simp
  qed
qed

text \<open>Claim C10: once lines 92 to 112 have run, every later state of the script, after
  any number \<open>k\<close> of the statements that follow and whether or not one of them has
  raised, holds a data frame in which each of the seven key columns is the column it
  was after the \<^verbatim>\<open>dropna\<close>, and in which every other column is one of RIAGENDRx,
  RIDAGEYR_z and RIDAGEYR_cen.\<close>

theorem key_columns_unchanged:
  assumes "run L E load_part s0 = (st9, None)"
    and "run L E (take k analysis_part) st9 = (st, r)"
  shows "\<exists>d9 d. da st9 = Some d9 \<and> columns d9 = key_vars \<and> da st = Some d \<and>
           (\<forall>v \<in> set key_vars. map_of d v = map_of d9 v) \<and>
           set (columns d) \<subseteq> set key_vars \<union> set derived_vars"
proof -
  obtain csv d' where d': "select csv key_vars = Inr d'" "da st9 = Some (dropna d')"
    using load_result [OF assms(1)] by blast
  have cols: "columns (dropna d') = key_vars"
    using select_columns [OF d'(1)] by (simp add: columns_dropna)
  have start: "\<exists>d. da st9 = Some d \<and> keeps (dropna d') d"
    using d'(2) cols by (simp add: keeps_refl)
  have "\<exists>d. da (fst (run L E (take k analysis_part) st9)) = Some d \<and> keeps (dropna d') d"
    using start take_analysis_stmts by (intro run_keeps) auto
  then obtain d where d: "da st = Some d" "keeps (dropna d') d"
    using assms(2) by auto
  show ?thesis
  proof (intro exI conjI)
    show "da st9 = Some (dropna d')" by (rule d'(2))
    show "columns (dropna d') = key_vars" by (rule cols)
    show "da st = Some d" by (rule d(1))
    show "\<forall>v \<in> set key_vars. map_of d v = map_of (dropna d') v"
      using d(2) by (simp add: keeps_def)
    show "set (columns d) \<subseteq> set key_vars \<union> set derived_vars"
      using d(2) by (simp add: keeps_def)
  qed
qed

subsection \<open>Centring and standardizing in exact arithmetic\<close>

lemma sum_list_shift:
  "sum_list (map (\<lambda>x. x - m) xs) = sum_list xs - real (length xs) * (m :: real)"
  by (induction xs) (simp_all add: algebra_simps)

lemma sum_list_centered:
  assumes "xs \<noteq> []"
  shows "sum_list (map (\<lambda>x. x - sum_list xs / real (length xs)) xs) = (0 :: real)"
  using assms by (simp add: sum_list_shift)

lemma sum_list_scaled:
  "sum_list (map (\<lambda>x. f x / s) xs) = sum_list (map f xs) / (s :: real)"
  by (induction xs) (simp_all add: add_divide_distrib)

lemma nums_shift:
  "\<not> list_ex is_Str c \<Longrightarrow> nums (map (\<lambda>x. fsub id x (Num m)) c) = map (\<lambda>x. x - m) (nums c)"
  by (induction c rule: nums.induct) simp_all

lemma nums_shift_scale:
  "\<not> list_ex is_Str c \<Longrightarrow> s \<noteq> 0 \<Longrightarrow>
   nums (map (\<lambda>x. fdiv id (fsub id x (Num m)) (Num s)) c) = map (\<lambda>x. (x - m) / s) (nums c)"
  by (induction c rule: nums.induct) simp_all

lemma mean_exact:
  "mean_r id c =
     (if nums c = [] then NaN else Num (sum_list (nums c) / real (length (nums c))))"
  by (simp add: mean_r_def fsum_id)

lemma std_exact:
  "std_r id c =
     (if length (nums c) \<le> 1 then NaN
      else Num (sqrt (sum_list (map (\<lambda>x. (x - sum_list (nums c) / real (length (nums c)))\<^sup>2)
                                   (nums c))
                      / real (length (nums c) - 1))))"
  by (simp add: std_r_def fsum_id Let_def power2_commute)

lemma mean_Num:
  "nums c \<noteq> [] \<Longrightarrow> mean_r id c = Num (sum_list (nums c) / real (length (nums c)))"
  by (simp add: mean_exact)

lemma mean_center:
  assumes "\<not> list_ex is_Str c" and "nums c \<noteq> []"
  shows "mean_r id (center_r id c) = Num 0"
proof -
  let ?m = "sum_list (nums c) / real (length (nums c))"
  have "center_r id c = map (\<lambda>x. fsub id x (Num ?m)) c"
    using assms(2) by (simp add: center_r_def mean_Num)
  then have "nums (center_r id c) = map (\<lambda>x. x - ?m) (nums c)"
    using assms(1) by (simp add: nums_shift)
  then show ?thesis
    using assms(2) by (simp add: mean_exact sum_list_centered)
qed

lemma std_NumD:
  assumes "std_r id c = Num s"
  shows "2 \<le> length (nums c)"
    and "s = sqrt (sum_list (map (\<lambda>x. (x - sum_list (nums c) / real (length (nums c)))\<^sup>2) (nums c))
                   / real (length (nums c) - 1))"
  using assms by (auto simp: std_exact split: if_splits)

lemma standardize_moments:
  assumes nostr: "\<not> list_ex is_Str c" and s: "std_r id c = Num s" and s0: "s \<noteq> 0"
  shows "mean_r id (standardize_r id c) = Num 0" and "std_r id (standardize_r id c) = Num 1"
proof -
  let ?xs = "nums c"
  let ?n = "length ?xs"
  let ?m = "sum_list ?xs / real ?n"
  let ?SS = "sum_list (map (\<lambda>x. (x - ?m)\<^sup>2) ?xs)"
  define zs where "zs = map (\<lambda>x. (x - ?m) / s) ?xs"
  have n: "2 \<le> ?n" and sdef: "s = sqrt (?SS / real (?n - 1))"
    using std_NumD [OF s] by simp_all
  have ne: "?xs \<noteq> []" using n by auto
  have "standardize_r id c = map (\<lambda>x. fdiv id (fsub id x (Num ?m)) (Num s)) c"
    using ne s by (simp add: standardize_r_def mean_Num)
  then have zs: "nums (standardize_r id c) = zs"
    using nostr s0 by (simp add: nums_shift_scale zs_def)
  have len: "length zs = ?n" by (simp add: zs_def)
  have sumz: "sum_list zs = 0"
    using ne by (simp add: zs_def sum_list_scaled sum_list_centered)
  have zne: "zs \<noteq> []" using ne by (simp add: zs_def)
  show "mean_r id (standardize_r id c) = Num 0"
    using zne by (simp add: mean_exact zs sumz)
  have SSnn: "0 \<le> ?SS" by (rule sum_list_nonneg) auto
  have s2: "s\<^sup>2 = ?SS / real (?n - 1)"
    using SSnn by (simp add: sdef)
  have n1: "real (?n - 1) \<noteq> 0" using n by simp
  have "sum_list (map (\<lambda>z. z\<^sup>2) zs) = ?SS / s\<^sup>2"
    by (simp add: zs_def comp_def power_divide sum_list_scaled)
  moreover have "?SS \<noteq> 0" using s0 sdef by auto
  ultimately have one: "sum_list (map (\<lambda>z. z\<^sup>2) zs) / real (?n - 1) = 1"
    using n1 by (simp add: s2)
  have "std_r id (standardize_r id c) =
      Num (sqrt (sum_list (map (\<lambda>z. z\<^sup>2) zs) / real (?n - 1)))"
    using n by (simp add: std_exact zs len sumz)
  then show "std_r id (standardize_r id c) = Num 1"
    by (simp only: one real_sqrt_one)
qed

text \<open>Claim C7, as amended: for every column \<open>c\<close> of numbers (no strings; missing
  cells are skipped), when the arithmetic of \<^verbatim>\<open>mean\<close>, \<^verbatim>\<open>std\<close> and lines 612
  and 686 is exact, that is, the same operations without rounding: if \<open>c\<close> has a
  number at all, the centred column \<^verbatim>\<open>c - c.mean()\<close> has mean exactly zero; if the
  standard deviation of \<open>c\<close> is a number other than zero, the standardized column
  \<^verbatim>\<open>(c - c.mean()) / c.std()\<close> has mean exactly zero and standard deviation
  exactly one.\<close>

theorem centered_standardized_exact:
  assumes "\<not> list_ex is_Str c"
  shows "(nums c \<noteq> [] \<longrightarrow> mean_r id (center_r id c) = Num 0) \<and>
         (\<forall>s. std_r id c = Num s \<and> s \<noteq> 0 \<longrightarrow>
              mean_r id (standardize_r id c) = Num 0 \<and>
              std_r id (standardize_r id c) = Num 1)"
  using assms mean_center standardize_moments by blast

subsection \<open>Centring in doubles\<close>

lemma Num_in_nums: "Num a \<in> set c \<Longrightarrow> a \<in> set (nums c)"
  by (induction c rule: nums.induct) auto

lemma std_zero_centered:
  assumes "std c = Num 0" and "Num a \<in> set c"
  shows "fsub rnd (Num a) (mean c) = Num 0"
proof -
  let ?xs = "nums c"
  let ?n = "length ?xs"
  let ?avg = "rnd (fsum rnd 0 ?xs / real ?n)"
  let ?sq = "map (\<lambda>x. rnd ((rnd (?avg - x))\<^sup>2)) ?xs"
  have n: "\<not> ?n \<le> 1" and z: "rnd (sqrt (rnd (fsum rnd 0 ?sq / real (?n - 1)))) = 0"
    using assms(1) by (auto simp: std_def std_r_def Let_def split: if_splits)
  have "fsum rnd 0 ?sq / real (?n - 1) = 0"
    using z by (simp add: rnd_eq_0_iff)
  then have "fsum rnd 0 ?sq = 0" using n by simp
  moreover have "\<forall>y \<in> set ?sq. 0 \<le> y" by (auto simp: rnd_nonneg)
  ultimately have zero: "\<forall>y \<in> set ?sq. y = 0"
    using fsum_rnd_zero [of 0 ?sq] by simp
  have "a \<in> set ?xs" using assms(2) by (rule Num_in_nums)
  then have "rnd ((rnd (?avg - a))\<^sup>2) = 0" using zero by simp
  then have "a = ?avg" by (simp add: rnd_eq_0_iff)
  moreover have "mean c = Num ?avg" using n by (auto simp: mean_def mean_r_def)
  ultimately show ?thesis by (simp add: rnd_zero)
qed

text \<open>The ages 18, 19, 21 in doubles. Their sum 58 is exact and the mean is 58/3
  rounded; the three differences and their sum, \<open>2^(-48)\<close>, are exact; the mean of the
  centred column is \<open>2^(-48)/3\<close> rounded.\<close>

lemma mean_18_19_21: "mean [Num 18, Num 19, Num 21] = Num (5441849549739349 / 281474976710656)"
proof -
  have "rnd (58 / 3) = of_int (rne (58 / 3 * 2 ^ 48)) / 2 ^ 48"
    by (rule rnd_scale_up) simp_all
  moreover have "rne (58 / 3 * 2 ^ 48) = 5441849549739349"
    by (simp add: rne_def)
  ultimately have "rnd (58 / 3) = 5441849549739349 / 281474976710656" by simp
  then show ?thesis by (simp add: mean_def mean_r_def)
qed

lemma center_18_19_21:
  "center [Num 18, Num 19, Num 21] =
     [Num (- 375299968947541 / 281474976710656),
      Num (- 93824992236885 / 281474976710656),
      Num (469124961184427 / 281474976710656)]"
proof -
  have "rnd (- 375299968947541 / 281474976710656) = - 375299968947541 / 281474976710656"
    using rnd_fixed [of "- 375299968947541" 48] by simp
  moreover have "rnd (- 93824992236885 / 281474976710656) = - 93824992236885 / 281474976710656"
    using rnd_fixed [of "- 93824992236885" 48] by simp
  moreover have "rnd (469124961184427 / 281474976710656) = 469124961184427 / 281474976710656"
    using rnd_fixed [of 469124961184427 48] by simp
  ultimately show ?thesis
    using mean_18_19_21 by (simp add: center_def center_r_def mean_def)
qed

text \<open>Claim C7 as stated fails: in doubles the centred column of the ages 18, 19, 21
  has the mean \<open>6004799503160661 / 2^102\<close>, about 1.18e-15, and not zero.\<close>

theorem centered_mean_rounds:
  "mean (center [Num 18, Num 19, Num 21]) = Num (6004799503160661 / 2 ^ 102) \<and>
   mean (center [Num 18, Num 19, Num 21]) \<noteq> Num 0"
proof -
  have a1: "rnd (- (375299968947541 / 281474976710656)) = - (375299968947541 / 281474976710656)"
    using rnd_fixed [of "- 375299968947541" 48] by simp
  have a2: "rnd (- (234562480592213 / 140737488355328)) = - (234562480592213 / 140737488355328)"
    using rnd_fixed [of "- 234562480592213" 47] by simp
  have a3: "rnd (1 / 281474976710656) = 1 / 281474976710656"
    using rnd_fixed [of 1 48] by simp
  have "rnd (1 / 844424930131968) = of_int (rne (1 / 844424930131968 * 2 ^ 102)) / 2 ^ 102"
    by (rule rnd_scale_up) simp_all
  moreover have "rne (1 / 844424930131968 * 2 ^ 102) = 6004799503160661"
    by (simp add: rne_def)
  ultimately have a4: "rnd (1 / 844424930131968) = 6004799503160661 / 2 ^ 102" by simp
  have "mean (center [Num 18, Num 19, Num 21]) = Num (6004799503160661 / 2 ^ 102)"
    by (simp add: center_18_19_21 mean_def mean_r_def a1 a2 a3 a4)
  then show ?thesis by simp
qed

subsection \<open>The fitted models\<close>

lemma fit_formulas_program:
  "fit_formulas program =
     [''BPXSY1 ~ RIDAGEYR'',
      ''BPXSY1 ~ RIDAGEYR + RIAGENDRx'',
      ''BPXSY1 ~ RIDAGEYR + BMXBMI + RIAGENDRx'',
      ''BPXSY1 ~ RIDAGEYR + BMXBMI + RIAGENDRx'',
      ''BPXSY1 ~ RIDAGEYR + BMXBMI + RIAGENDRx'',
      ''BPXSY1 ~ RIDAGEYR_z + I(RIDAGEYR_z**2) + RIAGENDRx'',
      ''BPXSY1 ~ bs(RIDAGEYR, 5) + BMXBMI + RIAGENDRx'',
      ''BPXSY1 ~ RIDAGEYR_cen*RIAGENDRx + BMXBMI'']"
  by (simp add: fit_formulas_def program_def load_part_def analysis_part_def)

lemma terms_of_fits:
  "map terms_of (fit_formulas program) =
     [[''RIDAGEYR''],
      [''RIDAGEYR'', ''RIAGENDRx''],
      [''RIDAGEYR'', ''BMXBMI'', ''RIAGENDRx''],
      [''RIDAGEYR'', ''BMXBMI'', ''RIAGENDRx''],
      [''RIDAGEYR'', ''BMXBMI'', ''RIAGENDRx''],
      [''RIDAGEYR_z'', ''I(RIDAGEYR_z**2)'', ''RIAGENDRx''],
      [''bs(RIDAGEYR, 5)'', ''BMXBMI'', ''RIAGENDRx''],
      [''RIDAGEYR_cen'', ''RIAGENDRx'', ''RIDAGEYR_cen:RIAGENDRx'', ''BMXBMI'']]"
  unfolding fit_formulas_program by code_simp

lemma n_terms_fits: "map n_terms (fit_formulas program) = [1, 2, 3, 3, 3, 3, 3, 4]"
proof -
  have "map n_terms (fit_formulas program) = map length (map terms_of (fit_formulas program))"
    by (simp add: n_terms_def comp_def)
  then show ?thesis by (simp only: terms_of_fits) simp
qed

lemma adds_terms_12:
  "adds_terms ''BPXSY1 ~ RIDAGEYR'' ''BPXSY1 ~ RIDAGEYR + RIAGENDRx''"
  by code_simp

lemma adds_terms_23:
  "adds_terms ''BPXSY1 ~ RIDAGEYR + RIAGENDRx'' ''BPXSY1 ~ RIDAGEYR + BMXBMI + RIAGENDRx''"
  by code_simp

lemma adds_terms_irrefl: "\<not> adds_terms f f"
  by (simp add: adds_terms_def)

lemma kinds_program:
  "set (map kind_of program) = {Setup, Load, Prepare, FitModel, Plot, Statistic}"
  by code_simp

text \<open>Claim C1 as stated fails: the fourth fitted formula is the third again, so the
  fitted models do not each add terms to the one before and the numbers of their terms
  do not increase strictly; and besides loading, fitting and plotting the script
  computes and prints descriptive statistics.\<close>

theorem models_not_strictly_growing:
  "fit_formulas program ! 3 = fit_formulas program ! 2 \<and>
   \<not> successively adds_terms (fit_formulas program) \<and>
   \<not> sorted_wrt (<) (map n_terms (fit_formulas program)) \<and>
   Statistic \<in> set (map kind_of program)"
proof (intro conjI)
  show "fit_formulas program ! 3 = fit_formulas program ! 2"
    by (simp add: fit_formulas_program)
  show "\<not> successively adds_terms (fit_formulas program)"
    by (simp add: fit_formulas_program adds_terms_irrefl)
  show "\<not> sorted_wrt (<) (map n_terms (fit_formulas program))"
    by (simp add: n_terms_fits)
  show "Statistic \<in> set (map kind_of program)"
    by (simp only: kinds_program) simp
qed

text \<open>Claim C1, as amended: the script reads one CSV, fits eight models and draws
  plots, and besides that it sets up, prepares the data and computes and prints
  descriptive statistics. From the first model (one covariate) to the last (the
  interaction model) the number of terms never decreases: 1, 2, 3, 3, 3, 3, 3, 4.
  Each of the first three models adds a covariate to the one before.\<close>

theorem models_grow_weakly:
  "nreads program = 1 \<and>
   map n_terms (fit_formulas program) = [1, 2, 3, 3, 3, 3, 3, 4] \<and>
   sorted (map n_terms (fit_formulas program)) \<and>
   successively adds_terms (take 3 (fit_formulas program)) \<and>
   set (map kind_of program) = {Setup, Load, Prepare, FitModel, Plot, Statistic}"
proof (intro conjI)
  show "nreads program = 1" by (rule nreads_program)
  show "map n_terms (fit_formulas program) = [1, 2, 3, 3, 3, 3, 3, 4]" by (rule n_terms_fits)
  show "sorted (map n_terms (fit_formulas program))" by (simp add: n_terms_fits)
  show "successively adds_terms (take 3 (fit_formulas program))"
    by (simp add: fit_formulas_program adds_terms_12 adds_terms_23)
  show "set (map kind_of program) = {Setup, Load, Prepare, FitModel, Plot, Statistic}"
    by (rule kinds_program)
qed

text \<open>Claim C2: in every model the script fits, the outcome (the left-hand side of the
  formula) is systolic blood pressure, the column BPXSY1, and no model has another
  outcome: the set of the outcomes of all fitted formulas is that one name.\<close>

theorem outcome_always_BPXSY1:
  "set (map outcome (fit_formulas program)) = {''BPXSY1''}"
  by (simp add: fit_formulas_program outcome_def trim_def)

subsection \<open>The example runs\<close>

lemmas eval_defs =
  program_def load_part_def analysis_part_def s0_def no_raise_def
  opaque_def emit_def derive_def select_def dropna_def columns_def colof_def row_ok_def
  nrows_def setcol_def delcol_def key_vars_def values0_def setcol_dict_def
  standardize_def center_def replace_def mean_def std_def
  standardize_r_def center_r_def mean_r_def std_r_def

lemma example_run_completes: "snd (run no_raise example_world program s0) = None"
  by (simp del: run.simps(2)
      add: run_Cons_if eval_defs example_world_def example_csv_def)

lemma example_run_fits:
  "example_z_frame \<in> set (fit_frames (trace (fst (run no_raise example_world program s0))))"
  by (simp del: run.simps(2)
      add: run_Cons_if eval_defs example_world_def example_csv_def fit_frames_def
        example_z_frame_def)

lemma same_age_run_fits:
  "same_age_frame \<in> set (fit_frames (trace (fst (run no_raise same_age_world program s0))))"
  by (simp del: run.simps(2)
      add: run_Cons_if eval_defs same_age_world_def same_age_csv_def fit_frames_def
        same_age_frame_def)

subsection \<open>The properties at the examples\<close>

text \<open>A table without BMXBMI: the selection in line 112 raises KeyError, and the run
  ends with that KeyError.\<close>

theorem missing_column_propagates:
  "snd (run no_raise short_world program s0) = Some (KeyError [''BMXBMI''])"
proof -
  define st_k where "st_k = fst (run no_raise short_world (take 8 program) s0)"
  define st' where "st' = fst (exec no_raise short_world (program ! 8) st_k)"
  have k: "8 < length program"
    by (simp add: program_def load_part_def analysis_part_def)
  have "snd (run no_raise short_world (take 8 program) s0) = None"
    by (simp del: run.simps(2) add: run_Cons_if eval_defs short_world_def)
  then have pre: "run no_raise short_world (take 8 program) s0 = (st_k, None)"
    by (simp add: st_k_def prod_eq_iff)
  have da_k: "da st_k = Some short_csv"
    unfolding st_k_def
    by (simp del: run.simps(2) add: run_Cons_if eval_defs short_world_def)
  have vars_k: "vars st_k = Some key_vars"
    unfolding st_k_def
    by (simp del: run.simps(2) add: run_Cons_if program_def load_part_def s0_def no_raise_def
        opaque_def emit_def short_world_def)
  have stmt: "program ! 8 = SelectDropna"
    by (simp add: program_def load_part_def)
  have sel: "select short_csv key_vars = Inl (KeyError [''BMXBMI''])"
    by (simp add: select_def columns_def short_csv_def example_csv_def key_vars_def)
  have "snd (exec no_raise short_world (program ! 8) st_k) = Some (KeyError [''BMXBMI''])"
    by (simp add: stmt da_k vars_k sel)
  then have ex: "exec no_raise short_world (program ! 8) st_k = (st', Some (KeyError [''BMXBMI'']))"
    by (simp add: st'_def prod_eq_iff)
  show ?thesis
    using exception_propagates [OF k pre ex] by simp
qed

text \<open>The example run completes and reads the NHANES address once.\<close>

theorem example_run_reads_once:
  "snd (run no_raise example_world program s0) = None \<and>
   reads (trace (fst (run no_raise example_world program s0))) = [nhanes_url]"
  using only_nhanes_csv_read [of no_raise example_world] example_run_completes by simp

text \<open>Claim C9 as stated fails: besides the read and the figures, the example run
  writes to standard output three times, by the \<^verbatim>\<open>print\<close> calls of lines 228, 241
  and 318.\<close>

theorem example_run_stdout:
  "count_effect Stdout (trace (fst (run no_raise example_world program s0))) = 3 \<and>
   effect_of (EvCall ''print'' [''cc[0, 1]**2'']) = Stdout"
  using run_count_done [OF example_run_completes, of Stdout]
  by (simp add: count_stmts_program count_effect_s0 callee_effect_def read_callees_def
      write_callees_def)

text \<open>The example run completes, writes no file and prints three times.\<close>

theorem example_run_effects:
  "snd (run no_raise example_world program s0) = None \<and>
   count_effect FileWrite (trace (fst (run no_raise example_world program s0))) = 0 \<and>
   count_effect Stdout (trace (fst (run no_raise example_world program s0))) = 3 \<and>
   reads (trace (fst (run no_raise example_world program s0))) = [nhanes_url]"
  using no_storage_effects [of no_raise example_world] example_run_completes by simp

text \<open>In the example run the age has standard deviation 20, and the frame of the
  quadratic model has no missing value in RIDAGEYR_z.\<close>

theorem example_fit_not_missing:
  "example_z_frame \<in> set (fit_frames (trace (fst (run no_raise example_world program s0)))) \<and>
   std_usable (colof example_z_frame ''RIDAGEYR'') \<and>
   no_missing example_z_frame ''RIDAGEYR_z'' \<and>
   no_missing example_z_frame ''BPXSY1''"
proof -
  have usable: "std_usable (colof example_z_frame ''RIDAGEYR'')"
    by (simp add: std_usable_def std_def std_r_def colof_def example_z_frame_def)
  show ?thesis
    using usable example_run_fits fit_data_not_missing [OF example_run_fits]
    by (simp add: key_vars_def)
qed

text \<open>Claim C5 as stated fails: with six subjects of the same age the standard
  deviation is zero, line 612 divides zero by zero, and the frame passed to the fit of
  line 613 has RIDAGEYR_z missing in every row.\<close>

theorem same_age_z_missing:
  "same_age_frame \<in> set (fit_frames (trace (fst (run no_raise same_age_world program s0)))) \<and>
   \<not> no_missing same_age_frame ''RIDAGEYR_z''"
  using same_age_run_fits
  by (simp add: no_missing_def colof_def same_age_frame_def same_age_csv_def)

text \<open>The example run, 70 statements after the load.\<close>

theorem example_key_columns_unchanged:
  "\<exists>d9 d. da (fst (run no_raise example_world load_part s0)) = Some d9 \<and>
     columns d9 = key_vars \<and>
     da (fst (run no_raise example_world (take 70 analysis_part)
            (fst (run no_raise example_world load_part s0)))) = Some d \<and>
     (\<forall>v \<in> set key_vars. map_of d v = map_of d9 v) \<and>
     set (columns d) \<subseteq> set key_vars \<union> set derived_vars"
proof -
  define st9 where "st9 = fst (run no_raise example_world load_part s0)"
  define st where "st = fst (run no_raise example_world (take 70 analysis_part) st9)"
  define r where "r = snd (run no_raise example_world (take 70 analysis_part) st9)"
  have "snd (run no_raise example_world load_part s0) = None"
    by (simp del: run.simps(2) add: run_Cons_if eval_defs example_world_def example_csv_def)
  then have load: "run no_raise example_world load_part s0 = (st9, None)"
    by (simp add: st9_def prod_eq_iff)
  have rest: "run no_raise example_world (take 70 analysis_part) st9 = (st, r)"
    by (simp add: st_def r_def)
  show ?thesis
    using key_columns_unchanged [OF load rest] by (simp add: st9_def st_def)
qed

text \<open>The ages 30, 50, 70 of the example: mean 50, standard deviation 20.\<close>

theorem example_moments:
  "mean_r id (center_r id [Num 30, Num 50, Num 70]) = Num 0 \<and>
   mean_r id (standardize_r id [Num 30, Num 50, Num 70]) = Num 0 \<and>
   std_r id (standardize_r id [Num 30, Num 50, Num 70]) = Num 1"
proof -
  have nostr: "\<not> list_ex is_Str [Num 30, Num 50, Num 70]" by simp
  have s: "std_r id [Num 30, Num 50, Num 70] = Num 20" by (simp add: std_exact)
  show ?thesis
    using centered_standardized_exact [OF nostr] s by simp
qed

end
